theory Spec2Isabelle
  imports Main "HOL-Library.Word"
begin

unbundle bit_operations_syntax

section \<open>The partial-file writer of \<^verbatim>\<open>src/transfers/partial_file.cpp\<close>\<close>

text \<open>
  The writer streams a transfer onto a USB mass-storage device sector by sector. The
  embedding follows the C++ source function by function. The target is a 32-bit
  microcontroller (the source casts a \<^verbatim>\<open>void *\<close> to \<^verbatim>\<open>uint32_t\<close> with
  \<^verbatim>\<open>reinterpret_cast\<close>, which only compiles where pointers have 32 bits), so
  \<^verbatim>\<open>size_t\<close> is a 32-bit word and its arithmetic wraps around. Sector numbers
  (\<^verbatim>\<open>UsbhMscRequest::SectorNbr\<close>) are 32-bit words as well.
\<close>

subsection \<open>Data model\<close>

type_synonym size_t = "32 word"
type_synonym SectorNbr = "32 word"
type_synonym uint8_t = "8 word"

text \<open>\<^verbatim>\<open>SECTOR_SIZE\<close>, statically asserted equal to \<^verbatim>\<open>FF_MAX_SS\<close> and \<^verbatim>\<open>FF_MIN_SS\<close>.\<close>

definition SECTOR_SIZE :: size_t where
  "SECTOR_SIZE = 512"

definition FF_MAX_SS :: size_t where
  "FF_MAX_SS = 512"

text \<open>\<^verbatim>\<open>USBH_StatusTypeDef\<close>: the source only tells \<^verbatim>\<open>USBH_OK\<close> from everything
  else; \<^verbatim>\<open>USBH_FAIL\<close> stands for every other status.\<close>

datatype USBH_StatusTypeDef = USBH_OK | USBH_FAIL

text \<open>\<^verbatim>\<open>ValidPart\<close>: the half-open byte range from \<open>start\<close> to \<open>end\<close> (exclusive).
  The field \<^verbatim>\<open>end\<close> is written \<open>end'\<close>.\<close>

record ValidPart =
  start :: size_t
  end' :: size_t

record State =
  valid_head :: "ValidPart option"
  valid_tail :: "ValidPart option"
  total_size :: size_t

text \<open>One slot of the pool: of a \<^verbatim>\<open>UsbhMscRequest\<close> only the sector number and the
  sector buffer change after construction; the slot index (\<^verbatim>\<open>callback_param2\<close>) is the
  position in the pool.\<close>

record UsbhMscRequest =
  sector_nbr :: SectorNbr
  data :: "uint8_t list"

text \<open>\<^verbatim>\<open>SectorPool\<close>: bit \<open>i\<close> of \<open>slot_mask\<close> set means slot \<open>i\<close> is in use.
  \<open>semaphore\<close> is the binary semaphore (\<open>True\<close> when it has been given and not yet
  taken). \<open>size'\<close> is the number of slots (\<^verbatim>\<open>size\<close>, a constant of the absent header),
  kept as a parameter. The mutex only protects \<open>slot_mask\<close> against the completion context and
  has no counterpart in this sequential model.\<close>

record SectorPool =
  pool :: "nat \<Rightarrow> UsbhMscRequest"
  slot_mask :: "32 word"
  semaphore :: bool
  size' :: nat

text \<open>
  The environment of the writer: the results of the successive \<^verbatim>\<open>lseek\<close> pokes on the
  file lock (\<open>True\<close> when the call does not return -1), the results of the successive
  calls of \<^verbatim>\<open>usbh_msc_submit_request\<close>, and what happens each time the writer blocks
  in \<^verbatim>\<open>xSemaphoreTake\<close>: \<open>Some (result, slot)\<close> when the completion callback of
  \<open>slot\<close> fires with \<open>result\<close> before the delay runs out, \<open>None\<close> for a timeout. A
  script that has run out answers failure or timeout. \<open>submitted\<close> is the log of the
  requests handed to \<^verbatim>\<open>usbh_msc_submit_request\<close>: slot, sector number, buffer
  contents at that moment, and the result of the call.

  Completion callbacks run in the driver's context. Here they fire while the writer is
  blocked on the semaphore (an entry of \<open>sem_events\<close>) or between two calls of the
  writer (the operation \<open>Finished\<close> below); a callback that fires while a call runs
  without blocking is taken to fire once that call has returned. The script is not
  restricted to slots that are in flight: a statement proved for every script holds for
  whatever the block layer does at these points.
\<close>

record World =
  lseek_results :: "bool list"
  submit_results :: "USBH_StatusTypeDef list"
  sem_events :: "(USBH_StatusTypeDef \<times> nat) option list"
  submitted :: "(nat \<times> SectorNbr \<times> uint8_t list \<times> USBH_StatusTypeDef) list"

text \<open>\<^verbatim>\<open>PartialFile\<close>. \<open>current_sector\<close> points into the pool, so it is the index of a
  slot. The file lock is a descriptor; its only use, the poke, is answered by \<open>world\<close>.\<close>

record PartialFile =
  sector_pool :: SectorPool
  write_error :: bool
  first_sector_nbr :: SectorNbr
  current_sector :: "nat option"
  current_offset :: size_t
  state :: State
  last_progress_percent :: int
  world :: World

text \<open>A call either returns or stops the process: \<^verbatim>\<open>fatal_error\<close>, or a failed
  \<^verbatim>\<open>assert\<close>.\<close>

datatype abort = FatalError | AssertFailed

subsection \<open>Sector mapping\<close>

definition get_sector_nbr :: "PartialFile \<Rightarrow> size_t \<Rightarrow> SectorNbr" where
  "get_sector_nbr f offset =
     (let sector = first_sector_nbr f + offset div FF_MAX_SS
      in if offset \<ge> total_size (state f) then sector + 1 else sector)"

definition get_offset :: "PartialFile \<Rightarrow> SectorNbr \<Rightarrow> size_t" where
  "get_offset f nbr = (nbr - first_sector_nbr f) * SECTOR_SIZE"

subsection \<open>Valid ranges\<close>

definition has_valid_head :: "PartialFile \<Rightarrow> size_t \<Rightarrow> bool" where
  "has_valid_head f bytes =
     (case valid_head (state f) of None \<Rightarrow> False
      | Some h \<Rightarrow> start h = 0 \<and> end' h \<ge> bytes)"

definition has_valid_tail :: "PartialFile \<Rightarrow> size_t \<Rightarrow> bool" where
  "has_valid_tail f bytes =
     (case valid_tail (state f) of None \<Rightarrow> False
      | Some t \<Rightarrow> start t \<le> total_size (state f) - bytes \<and> end' t = total_size (state f))"

text \<open>Modelled from the spec: \<^verbatim>\<open>ValidPart::merge\<close> is declared in \<^verbatim>\<open>partial_file.hpp\<close>,
  which is not among the sources. The spec: ``merge unions overlapping/touching ranges'';
  a range that neither overlaps nor touches the receiver leaves it unchanged.\<close>

definition merge :: "ValidPart \<Rightarrow> ValidPart \<Rightarrow> ValidPart" where
  "merge this other =
     (if start other \<le> end' this \<and> start this \<le> end' other
      then \<lparr>start = min (start this) (start other), end' = max (end' this) (end' other)\<rparr>
      else this)"

text \<open>Modelled from the spec: \<^verbatim>\<open>State::get_percent_valid\<close> is declared in the absent
  header too. The spec: \<open>percent_valid = 100 * (len(head) + len(tail) - overlap) / total_size\<close>,
  integer-truncated. It only feeds the progress log.\<close>

definition part_len :: "ValidPart \<Rightarrow> int" where
  "part_len p = uint (end' p) - uint (start p)"

definition overlap :: "ValidPart \<Rightarrow> ValidPart \<Rightarrow> int" where
  "overlap h t = max 0 (min (uint (end' h)) (uint (end' t)) - max (uint (start h)) (uint (start t)))"

definition get_valid_size :: "State \<Rightarrow> int" where
  "get_valid_size st =
     (case valid_head st of
        None \<Rightarrow> (case valid_tail st of None \<Rightarrow> 0 | Some t \<Rightarrow> part_len t)
      | Some h \<Rightarrow> (case valid_tail st of None \<Rightarrow> part_len h
                   | Some t \<Rightarrow> part_len h + part_len t - overlap h t))"

definition get_percent_valid :: "State \<Rightarrow> int" where
  "get_percent_valid st = 100 * get_valid_size st div uint (total_size st)"

text \<open>\<^verbatim>\<open>PartialFile::extend_valid_part\<close>. The progress line goes to the log only; what
  remains of the last step is the update of \<open>last_progress_percent\<close>, which gets the new
  percentage on both branches.\<close>

definition extend_valid_part :: "ValidPart \<Rightarrow> PartialFile \<Rightarrow> PartialFile" where
  "extend_valid_part new_part f =
     (let st = state f;
          head1 = (case valid_head st of
                     Some h \<Rightarrow> Some (merge h new_part)
                   | None \<Rightarrow> if start new_part = 0 then Some new_part else None);
          head_end = (case head1 of Some h \<Rightarrow> end' h | None \<Rightarrow> 0);
          tail1 = (case valid_tail st of
                     Some t \<Rightarrow> Some (merge t new_part)
                   | None \<Rightarrow> if start new_part > head_end then Some new_part else None);
          tail2 = (case head1 of
                     Some h \<Rightarrow> if end' h = total_size st then head1 else tail1
                   | None \<Rightarrow> tail1);
          head3 = (case head1 of
                     Some h \<Rightarrow> (case tail2 of Some t \<Rightarrow> Some (merge h t) | None \<Rightarrow> head1)
                   | None \<Rightarrow> head1);
          tail3 = (case head3 of
                     Some h \<Rightarrow> (case tail2 of Some t \<Rightarrow> Some (merge t h) | None \<Rightarrow> tail2)
                   | None \<Rightarrow> tail2);
          st' = st\<lparr>valid_head := head3, valid_tail := tail3\<rparr>
      in f\<lparr>state := st', last_progress_percent := get_percent_valid st'\<rparr>)"

subsection \<open>The sector pool\<close>

text \<open>\<^verbatim>\<open>std::popcount\<close> and \<^verbatim>\<open>std::countr_one\<close> on \<^verbatim>\<open>uint32_t\<close>.\<close>

definition popcount :: "32 word \<Rightarrow> nat" where
  "popcount w = length (filter (bit w) [0..<32])"

definition countr_one :: "32 word \<Rightarrow> nat" where
  "countr_one w = length (takeWhile (bit w) [0..<32])"

text \<open>The constructor of \<^verbatim>\<open>SectorPool\<close>: \<^verbatim>\<open>slot_mask(~0u << size)\<close>; the semaphore is
  created empty; the buffers come from \<^verbatim>\<open>new uint8_t[SECTOR_SIZE]\<close> and hold whatever
  the heap held, the parameter \<open>mem\<close>. The shift is defined for \<open>n < 32\<close> only.\<close>

definition SectorPool_new :: "nat \<Rightarrow> (nat \<Rightarrow> uint8_t list) \<Rightarrow> SectorPool" where
  "SectorPool_new n mem =
     \<lparr>pool = (\<lambda>i. \<lparr>sector_nbr = 0, data = mem i\<rparr>),
      slot_mask = push_bit n (- 1),
      semaphore = False,
      size' = n\<rparr>"

text \<open>Modelled from the spec: \<^verbatim>\<open>SectorPool::is_available_slot\<close> is declared in the
  absent header. The spec: ``no slot available'' is ``\<open>slot_mask\<close> has no clear bit in
  \<open>[0, N)\<close>''.\<close>

definition is_available_slot :: "SectorPool \<Rightarrow> bool" where
  "is_available_slot p = list_ex (\<lambda>i. \<not> bit (slot_mask p) i) [0..<size' p]"

definition get_available_slot :: "SectorPool \<Rightarrow> nat" where
  "get_available_slot p = countr_one (slot_mask p)"

text \<open>\<^verbatim>\<open>SectorPool::release\<close>: clears the bit and gives the semaphore.\<close>

definition release :: "nat \<Rightarrow> SectorPool \<Rightarrow> SectorPool" where
  "release slot p = p\<lparr>slot_mask := slot_mask p AND NOT (push_bit slot 1), semaphore := True\<rparr>"

text \<open>\<^verbatim>\<open>PartialFile::usbh_msc_finished\<close>, the completion callback of the block layer.\<close>

definition usbh_msc_finished :: "USBH_StatusTypeDef \<Rightarrow> nat \<Rightarrow> PartialFile \<Rightarrow> PartialFile" where
  "usbh_msc_finished result slot f =
     (let f1 = (if result \<noteq> USBH_OK then f\<lparr>write_error := True\<rparr> else f)
      in f1\<lparr>sector_pool := release slot (sector_pool f1)\<rparr>)"

text \<open>\<^verbatim>\<open>xSemaphoreTake(semaphore, USBH_MSC_RW_MAX_DELAY)\<close>; \<open>True\<close> is \<^verbatim>\<open>pdPASS\<close>. A
  semaphore that was given is taken at once. Otherwise the writer blocks and the next
  entry of the script decides: a completion callback runs (it releases its slot and
  gives the semaphore, which the waiting writer takes), or the delay runs out.\<close>

definition xSemaphoreTake :: "PartialFile \<Rightarrow> bool \<times> PartialFile" where
  "xSemaphoreTake f =
     (if semaphore (sector_pool f)
      then (True, f\<lparr>sector_pool := (sector_pool f)\<lparr>semaphore := False\<rparr>\<rparr>)
      else (case sem_events (world f) of
              [] \<Rightarrow> (False, f)
            | None # es \<Rightarrow> (False, f\<lparr>world := (world f)\<lparr>sem_events := es\<rparr>\<rparr>)
            | Some (result, slot) # es \<Rightarrow>
                (let f1 = usbh_msc_finished result slot (f\<lparr>world := (world f)\<lparr>sem_events := es\<rparr>\<rparr>)
                 in (True, f1\<lparr>sector_pool := (sector_pool f1)\<lparr>semaphore := False\<rparr>\<rparr>))))"

text \<open>What the writer can still wait for: two for every entry left in the script, plus
  one for a semaphore already given. Every passing take lowers it, so both waiting loops
  end.\<close>

definition pending :: "PartialFile \<Rightarrow> nat" where
  "pending f = 2 * length (sem_events (world f)) + (if semaphore (sector_pool f) then 1 else 0)"

text \<open>The waiting loop of \<^verbatim>\<open>SectorPool::acquire\<close>: \<open>False\<close> when a take timed out
  (the function then returns \<^verbatim>\<open>nullptr\<close>).\<close>

function acquire_wait :: "PartialFile \<Rightarrow> bool \<times> PartialFile" where
  "acquire_wait f =
     (if is_available_slot (sector_pool f) then (True, f)
      else (let r = xSemaphoreTake f
            in if fst r then acquire_wait (snd r) else (False, snd r)))"
  by pat_completeness auto
termination
  by (relation "measure pending")
     (auto simp: xSemaphoreTake_def pending_def usbh_msc_finished_def release_def Let_def
           split: list.splits option.splits if_splits)

text \<open>\<^verbatim>\<open>SectorPool::acquire\<close>: the slot taken (\<open>None\<close> for \<^verbatim>\<open>nullptr\<close>), its buffer
  zeroed. The callbacks that fire while it waits act on the whole \<open>PartialFile\<close>.\<close>

definition acquire :: "PartialFile \<Rightarrow> nat option \<times> PartialFile" where
  "acquire f =
     (let r = acquire_wait f; f1 = snd r
      in if \<not> fst r then (None, f1)
         else (let p = sector_pool f1; slot = get_available_slot p
               in (Some slot,
                   f1\<lparr>sector_pool := p
                        \<lparr>slot_mask := slot_mask p OR push_bit slot 1,
                         pool := (pool p)(slot := (pool p slot)
                                   \<lparr>data := replicate (unat SECTOR_SIZE) 0\<rparr>)\<rparr>\<rparr>)))"

text \<open>\<^verbatim>\<open>SectorPool::sync(avoid)\<close>. The comparison is the source's:
  \<^verbatim>\<open>std::popcount(slot_mask) != (int)(32 - avoid)\<close>, the subtraction on \<^verbatim>\<open>uint32_t\<close>.
  The \<^verbatim>\<open>assert(avoid <= size)\<close> is a precondition of the callers.\<close>

function SectorPool_sync :: "32 word \<Rightarrow> PartialFile \<Rightarrow> bool \<times> PartialFile" where
  "SectorPool_sync avoid f =
     (if int (popcount (slot_mask (sector_pool f))) \<noteq> sint (32 - avoid)
      then (let r = xSemaphoreTake f
            in if fst r then SectorPool_sync avoid (snd r) else (False, snd r))
      else (True, f))"
  by pat_completeness auto
termination
  by (relation "measure (\<lambda>(avoid, f). pending f)")
     (auto simp: xSemaphoreTake_def pending_def usbh_msc_finished_def release_def Let_def
           split: list.splits option.splits if_splits)

subsection \<open>The writer\<close>

text \<open>The constructor of \<^verbatim>\<open>PartialFile\<close>, for a pool of \<open>n\<close> slots.\<close>

definition PartialFile_new ::
  "nat \<Rightarrow> (nat \<Rightarrow> uint8_t list) \<Rightarrow> SectorNbr \<Rightarrow> State \<Rightarrow> World \<Rightarrow> PartialFile" where
  "PartialFile_new n mem first_sector st w =
     \<lparr>sector_pool = SectorPool_new n mem,
      write_error = False,
      first_sector_nbr = first_sector,
      current_sector = None,
      current_offset = 0,
      state = st,
      last_progress_percent = - 1,
      world = w\<rparr>"

text \<open>The poke: \<^verbatim>\<open>lseek(file_lock, 0, SEEK_SET) == -1\<close> is \<open>False\<close> here.\<close>

definition lseek :: "PartialFile \<Rightarrow> bool \<times> PartialFile" where
  "lseek f =
     (case lseek_results (world f) of
        [] \<Rightarrow> (False, f)
      | r # rs \<Rightarrow> (r, f\<lparr>world := (world f)\<lparr>lseek_results := rs\<rparr>\<rparr>))"

text \<open>\<^verbatim>\<open>usbh_msc_submit_request\<close>: the call is logged with the request as it is now.\<close>

definition usbh_msc_submit_request :: "nat \<Rightarrow> PartialFile \<Rightarrow> USBH_StatusTypeDef \<times> PartialFile" where
  "usbh_msc_submit_request slot f =
     (let w = world f;
          result = (case submit_results w of [] \<Rightarrow> USBH_FAIL | r # rs \<Rightarrow> r);
          req = pool (sector_pool f) slot
      in (result,
          f\<lparr>world := w\<lparr>submit_results := tl (submit_results w),
                        submitted := submitted w @ [(slot, sector_nbr req, data req, result)]\<rparr>\<rparr>))"

definition write_current_sector :: "PartialFile \<Rightarrow> abort + bool \<times> PartialFile" where
  "write_current_sector f =
     (case current_sector f of
        None \<Rightarrow> Inl AssertFailed
      | Some cs \<Rightarrow>
          (let r = lseek f; f1 = snd r
           in if \<not> fst r then Inr (False, f1)
              else (let s = usbh_msc_submit_request cs f1; f2 = snd s
                    in if fst s \<noteq> USBH_OK then Inr (False, f2)
                       else (let start = get_offset f2 (sector_nbr (pool (sector_pool f2) cs));
                                 end = min (start + SECTOR_SIZE) (total_size (state f2))
                             in Inr (True, extend_valid_part \<lparr>start = start, end' = end\<rparr> f2)))))"

definition discard_current_sector :: "PartialFile \<Rightarrow> PartialFile" where
  "discard_current_sector f =
     (case current_sector f of
        None \<Rightarrow> f
      | Some cs \<Rightarrow> f\<lparr>sector_pool := release cs (sector_pool f), current_sector := None\<rparr>)"

definition seek :: "size_t \<Rightarrow> PartialFile \<Rightarrow> bool \<times> PartialFile" where
  "seek offset f =
     (let new_sector = get_sector_nbr f offset
      in case current_sector f of
           Some cs \<Rightarrow>
             if sector_nbr (pool (sector_pool f) cs) = new_sector
             then (True, f\<lparr>current_offset := offset\<rparr>)
             else (True, discard_current_sector (f\<lparr>current_offset := offset\<rparr>))
         | None \<Rightarrow> (True, discard_current_sector (f\<lparr>current_offset := offset\<rparr>)))"

text \<open>The body of the loop of \<^verbatim>\<open>PartialFile::write\<close>, first part: open a new sector buffer
  if needed. The result is the current sector, or \<open>None\<close> where the source returns false
  (the offset is at or past the end of the file, or no slot could be acquired).\<close>

definition open_sector :: "PartialFile \<Rightarrow> nat option \<times> PartialFile" where
  "open_sector f =
     (case current_sector f of
        Some cs \<Rightarrow> (Some cs, f)
      | None \<Rightarrow>
          if current_offset f \<ge> total_size (state f) then (None, f)
          else (let nbr = get_sector_nbr f (current_offset f);
                    a = acquire f; f1 = snd a; p = sector_pool f1
                in case fst a of
                     None \<Rightarrow> (None, f1)
                   | Some slot \<Rightarrow>
                       (Some slot,
                        f1\<lparr>current_sector := Some slot,
                           sector_pool := p\<lparr>pool := (pool p)(slot := (pool p slot)\<lparr>sector_nbr := nbr\<rparr>)\<rparr>\<rparr>)))"

text \<open>Second part: write data to the sector buffer \<open>cs\<close>. The result is
  \<^verbatim>\<open>write_size\<close> and the file after the \<^verbatim>\<open>memcpy\<close>.\<close>

definition fill_sector :: "uint8_t list \<Rightarrow> nat \<Rightarrow> PartialFile \<Rightarrow> nat \<times> PartialFile" where
  "fill_sector dat cs f =
     (let sector_offset = unat (current_offset f mod SECTOR_SIZE);
          sector_remaining = unat SECTOR_SIZE - sector_offset;
          write_size = min (length dat) sector_remaining;
          p = sector_pool f;
          buf = data (pool p cs)
      in (write_size,
          f\<lparr>sector_pool := p\<lparr>pool := (pool p)(cs := (pool p cs)
               \<lparr>data := take sector_offset buf @ take write_size dat
                          @ drop (sector_offset + write_size) buf\<rparr>)\<rparr>\<rparr>))"

text \<open>Third part: flush the sector if needed. \<open>Inl\<close>: the process stops. The result of
  \<^verbatim>\<open>write_current_sector\<close> is dropped, as in the source.\<close>

definition flush_sector :: "nat \<Rightarrow> nat \<Rightarrow> PartialFile \<Rightarrow> abort + PartialFile" where
  "flush_sector cs write_size f =
     (let next_offset = current_offset f + of_nat write_size;
          next_sector_nbr = get_sector_nbr f next_offset
      in if next_offset > total_size (state f) then Inl FatalError
         else if next_sector_nbr \<noteq> sector_nbr (pool (sector_pool f) cs)
              then (case write_current_sector f of
                      Inl a \<Rightarrow> Inl a
                    | Inr r \<Rightarrow> Inr ((snd r)\<lparr>current_sector := None\<rparr>))
              else Inr f)"

text \<open>The whole body of the loop, for the bytes \<open>dat\<close> still to write (\<^verbatim>\<open>size\<close> is their
  number), ending with the seek that advances. \<open>Inl\<close>: the process stops.
  \<open>Inr (None, _)\<close>: the function returns false. \<open>Inr (Some write_size, _)\<close>: the loop
  goes on after \<open>write_size\<close> bytes.\<close>

definition write_chunk :: "uint8_t list \<Rightarrow> PartialFile \<Rightarrow> abort + nat option \<times> PartialFile" where
  "write_chunk dat f =
     (let opn = open_sector f
      in case fst opn of
           None \<Rightarrow> Inr (None, snd opn)
         | Some cs \<Rightarrow>
             (let fl = fill_sector dat cs (snd opn); write_size = fst fl
              in case flush_sector cs write_size (snd fl) of
                   Inl a \<Rightarrow> Inl a
                 | Inr f3 \<Rightarrow>
                     (let sk = seek (current_offset f3 + of_nat write_size) f3
                      in if \<not> fst sk then Inr (None, snd sk)
                         else Inr (Some write_size, snd sk))))"

function write_loop :: "uint8_t list \<Rightarrow> PartialFile \<Rightarrow> abort + bool \<times> PartialFile" where
  "write_loop dat f =
     (if dat = [] then Inr (True, f)
      else (case write_chunk dat f of
              Inl a \<Rightarrow> Inl a
            | Inr r \<Rightarrow>
                (case fst r of
                   None \<Rightarrow> Inr (False, snd r)
                 | Some write_size \<Rightarrow> write_loop (drop write_size dat) (snd r))))"
  by pat_completeness auto
termination
proof (relation "measure (\<lambda>(dat, f). length dat)", goal_cases)
  case 1
  show ?case by simp
next
  case (2 dat f r write_size)
  have "unat (x mod 512) < 512" for x :: size_t
    by (simp add: unat_mod)
  then have "0 < fst (fill_sector dat cs g)" for cs g
    using 2(1) by (simp add: fill_sector_def SECTOR_SIZE_def Let_def)
  with 2 have "0 < write_size"
    by (auto simp: write_chunk_def Let_def split: option.splits sum.splits if_splits)
  with 2 show ?case by simp
qed

text \<open>\<^verbatim>\<open>PartialFile::write(data, size)\<close>, the bytes given as a list; it is named
  \<open>write_bytes\<close> since \<open>write\<close> is a keyword.\<close>

definition write_bytes :: "uint8_t list \<Rightarrow> PartialFile \<Rightarrow> abort + bool \<times> PartialFile" where
  "write_bytes dat f = (if write_error f then Inr (False, f) else write_loop dat f)"

text \<open>\<^verbatim>\<open>PartialFile::sync\<close>. Its last two statements, shared by both branches: wait
  for the pool, then report \<^verbatim>\<open>!write_error\<close>. Both buffers have \<^verbatim>\<open>SECTOR_SIZE\<close> bytes,
  so the \<^verbatim>\<open>memcpy\<close> copies the whole buffer.\<close>

definition sync_pool :: "32 word \<Rightarrow> PartialFile \<Rightarrow> abort + bool \<times> PartialFile" where
  "sync_pool sync_avoid f =
     (let r = SectorPool_sync sync_avoid f
      in if \<not> fst r then Inr (False, snd r)
         else Inr (\<not> write_error (snd r), snd r))"

text \<open>The copy of the current sector \<open>cs\<close> into the slot \<open>copied\<close>: the buffer and
  the sector number.\<close>

definition copy_sector :: "nat \<Rightarrow> nat \<Rightarrow> PartialFile \<Rightarrow> PartialFile" where
  "copy_sector cs copied f =
     (let p = sector_pool f
      in f\<lparr>sector_pool := p\<lparr>pool := (pool p)(copied := (pool p copied)
              \<lparr>data := data (pool p cs), sector_nbr := sector_nbr (pool p cs)\<rparr>)\<rparr>\<rparr>)"

definition sync :: "PartialFile \<Rightarrow> abort + bool \<times> PartialFile" where
  "sync f =
     (case current_sector f of
        None \<Rightarrow> sync_pool 0 f
      | Some cs \<Rightarrow>
          (let a = acquire f
           in case fst a of
                None \<Rightarrow> Inr (False, snd a)
              | Some copied \<Rightarrow>
                  (case write_current_sector (copy_sector cs copied (snd a)) of
                     Inl e \<Rightarrow> Inl e
                   | Inr r \<Rightarrow>
                       (let f3 = (snd r)\<lparr>current_sector := Some copied\<rparr>
                        in if \<not> fst r then Inr (False, f3)
                           else sync_pool 1 f3))))"

subsection \<open>Sequences of operations\<close>

text \<open>The calls of the single writer thread, and \<open>Finished\<close>: a completion callback that
  fires between two of them.\<close>

datatype operation = Seek size_t | Write "uint8_t list" | Sync | Finished USBH_StatusTypeDef nat

fun call :: "operation \<Rightarrow> PartialFile \<Rightarrow> abort + bool \<times> PartialFile" where
  "call (Seek offset) f = Inr (seek offset f)"
| "call (Write dat) f = write_bytes dat f"
| "call Sync f = sync f"
| "call (Finished result slot) f = Inr (True, usbh_msc_finished result slot f)"

text \<open>Runs the operations in order; the result lists the writer's calls with what they
  returned. A callback returns nothing and is not listed.\<close>

fun run :: "operation list \<Rightarrow> PartialFile \<Rightarrow> abort + (operation \<times> bool) list \<times> PartialFile" where
  "run [] f = Inr ([], f)"
| "run (Finished result slot # cs) f = run cs (usbh_msc_finished result slot f)"
| "run (c # cs) f =
     (case call c f of
        Inl a \<Rightarrow> Inl a
      | Inr r \<Rightarrow>
          (case run cs (snd r) of
             Inl a \<Rightarrow> Inl a
           | Inr q \<Rightarrow> Inr ((c, fst r) # fst q, snd q)))"

section \<open>Notions used in the statements\<close>

text \<open>What a wait on the semaphore can change: only the completion callbacks run, so
  the slot mask, the semaphore and the script of events move and \<open>write_error\<close> can only
  be raised. Everything else stays.\<close>

definition waited :: "PartialFile \<Rightarrow> PartialFile \<Rightarrow> bool" where
  "waited f f' =
     (pool (sector_pool f') = pool (sector_pool f) \<and>
      size' (sector_pool f') = size' (sector_pool f) \<and>
      first_sector_nbr f' = first_sector_nbr f \<and>
      current_sector f' = current_sector f \<and>
      current_offset f' = current_offset f \<and>
      state f' = state f \<and>
      last_progress_percent f' = last_progress_percent f \<and>
      lseek_results (world f') = lseek_results (world f) \<and>
      submit_results (world f') = submit_results (world f) \<and>
      submitted (world f') = submitted (world f) \<and>
      (write_error f \<longrightarrow> write_error f'))"

text \<open>A range \<open>new\<close> covers \<open>old\<close> when it is present if \<open>old\<close> is and reaches at least as
  far on both sides: the range has not shrunk.\<close>

definition covers :: "ValidPart option \<Rightarrow> ValidPart option \<Rightarrow> bool" where
  "covers old new =
     (case old of
        None \<Rightarrow> True
      | Some a \<Rightarrow> (case new of None \<Rightarrow> False | Some b \<Rightarrow> start b \<le> start a \<and> end' a \<le> end' b))"

text \<open>The data model's bounds: a head starts at 0, and no range ends beyond the file.\<close>

definition head_ok :: "State \<Rightarrow> bool" where
  "head_ok st = (case valid_head st of None \<Rightarrow> True | Some h \<Rightarrow> start h = 0 \<and> end' h \<le> total_size st)"

definition tail_ok :: "State \<Rightarrow> bool" where
  "tail_ok st = (case valid_tail st of None \<Rightarrow> True | Some t \<Rightarrow> end' t \<le> total_size st)"

definition grows :: "State \<Rightarrow> State \<Rightarrow> bool" where
  "grows s s' =
     (total_size s' = total_size s \<and> covers (valid_head s) (valid_head s') \<and>
      covers (valid_tail s) (valid_tail s') \<and> head_ok s' \<and> tail_ok s')"

text \<open>The scenario of the specification: sectors of 512 bytes, a file of 2048 bytes
  whose first sector is LBA 100, here with a pool of four buffers that hold 255 in every
  byte before their first use. In \<open>scenario_world\<close> every poke and every submission
  succeeds and no completion arrives while the writer waits.\<close>

definition scenario_world :: World where
  "scenario_world =
     \<lparr>lseek_results = replicate 8 True, submit_results = replicate 8 USBH_OK,
      sem_events = [], submitted = []\<rparr>"

definition scenario_file :: "World \<Rightarrow> PartialFile" where
  "scenario_file w =
     PartialFile_new 4 (\<lambda>i. replicate 512 255) 100
       \<lparr>valid_head = None, valid_tail = None, total_size = 2048\<rparr> w"

text \<open>The file after a sequence of operations and what the calls returned (\<open>None\<close> when
  the process stopped), and the sector numbers of the requests submitted so far.\<close>

definition file_after :: "operation list \<Rightarrow> PartialFile \<Rightarrow> PartialFile" where
  "file_after ops f = (case run ops f of Inl a \<Rightarrow> f | Inr q \<Rightarrow> snd q)"

definition returned :: "operation list \<Rightarrow> PartialFile \<Rightarrow> bool list option" where
  "returned ops f = (case run ops f of Inl a \<Rightarrow> None | Inr q \<Rightarrow> Some (map snd (fst q)))"

definition submitted_sectors :: "PartialFile \<Rightarrow> SectorNbr list" where
  "submitted_sectors f = map (\<lambda>e. fst (snd e)) (submitted (world f))"

section \<open>Auxiliary lemmas\<close>

declare acquire_wait.simps [simp del] SectorPool_sync.simps [simp del] write_loop.simps [simp del]

subsection \<open>Word arithmetic and bits\<close>

lemma unat_div512: "unat ((x::32 word) div 512) = unat x div 512"
  by (simp add: unat_div)

lemma div512_succ_no_wrap: "unat ((x::32 word) div 512 + 1) = unat x div 512 + 1"
proof -
  have "unat x < 2^32" using unsigned_less[of x, where 'a=nat] by simp
  then have "unat x div 512 + 1 < 2^32" by simp
  then show ?thesis
    by (simp add: unat_word_ariths unat_div512)
qed

lemma sub_wrap_gt: "(a::32 word) < b \<Longrightarrow> a < a - b"
  by (metis (no_types) le_less_linear not_less_iff_gr_or_eq word_sub_le_iff word_le_less_eq)

lemma countr_one_le: "countr_one w \<le> 32"
  using length_takeWhile_le[of "bit w" "[0..<32]"] by (simp add: countr_one_def)

lemma countr_one_clear: "\<not> bit w (countr_one w)"
proof (cases "countr_one w < 32")
  case True
  then have "length (takeWhile (bit w) [0..<32]) < length [0..<32]"
    by (simp add: countr_one_def)
  from nth_length_takeWhile[OF this] True show ?thesis
    by (simp add: countr_one_def)
next
  case False
  with countr_one_le[of w] have "countr_one w = 32" by simp
  then show ?thesis using bit_imp_le_length[of w 32] by auto
qed

lemma countr_one_eq:
  assumes "k < 32" and "\<forall>i<k. bit w i" and "\<not> bit w k"
  shows "countr_one w = k"
proof -
  have "[0..<k + (32 - k)] = [0..<k] @ [k..<k + (32 - k)]"
    by (rule upt_add_eq_append) simp
  then have "[0..<32] = [0..<k] @ k # [Suc k..<32]"
    using assms(1) by (simp add: upt_conv_Cons)
  moreover have "takeWhile (bit w) ([0..<k] @ k # [Suc k..<32]) = [0..<k]"
    using assms(2,3) by (subst takeWhile_append2) auto
  ultimately show ?thesis by (simp add: countr_one_def)
qed

lemma not_mask_bit: "bit (NOT (mask n) :: 32 word) i \<longleftrightarrow> n \<le> i \<and> i < 32"
  by (auto simp: bit_simps dest: bit_imp_le_length)

lemma fresh_mask_countr_one: "0 < n \<Longrightarrow> countr_one (NOT (mask n) :: 32 word) = 0"
  by (rule countr_one_eq) (simp_all add: not_mask_bit)

lemma fresh_mask_countr_one': "1 < n \<Longrightarrow> n < 32 \<Longrightarrow> countr_one (NOT (mask n) OR 1 :: 32 word) = 1"
  by (rule countr_one_eq) (auto simp: not_mask_bit bit_or_iff bit_1_iff)

subsection \<open>What waiting leaves unchanged\<close>

lemma waited_refl: "waited f f"
  by (simp add: waited_def)

lemma waited_trans: "waited f g \<Longrightarrow> waited g h \<Longrightarrow> waited f h"
  by (simp add: waited_def)

lemma waitedD:
  assumes "waited f f'"
  shows "pool (sector_pool f') = pool (sector_pool f)"
    and "size' (sector_pool f') = size' (sector_pool f)"
    and "first_sector_nbr f' = first_sector_nbr f"
    and "current_sector f' = current_sector f"
    and "current_offset f' = current_offset f"
    and "state f' = state f"
    and "last_progress_percent f' = last_progress_percent f"
    and "lseek_results (world f') = lseek_results (world f)"
    and "submit_results (world f') = submit_results (world f)"
    and "submitted (world f') = submitted (world f)"
  using assms by (simp_all add: waited_def)

lemma waited_write_error: "waited f f' \<Longrightarrow> write_error f \<Longrightarrow> write_error f'"
  by (simp add: waited_def)

lemma usbh_msc_finished_waited: "waited f (usbh_msc_finished result slot f)"
  by (simp add: waited_def usbh_msc_finished_def release_def Let_def)

lemma xSemaphoreTake_waited: "waited f (snd (xSemaphoreTake f))"
  by (simp add: waited_def xSemaphoreTake_def usbh_msc_finished_def release_def Let_def
           split: list.splits option.splits)

lemma acquire_wait_waited: "waited f (snd (acquire_wait f))"
proof (induction f rule: acquire_wait.induct)
  case (1 f)
  show ?case
  proof (cases "is_available_slot (sector_pool f)")
    case True
    then show ?thesis by (simp add: acquire_wait.simps[of f] waited_refl)
  next
    case False
    show ?thesis
    proof (cases "fst (xSemaphoreTake f)")
      case True
      with False 1 have "waited (snd (xSemaphoreTake f)) (snd (acquire_wait (snd (xSemaphoreTake f))))"
        by simp
      with xSemaphoreTake_waited[of f] have "waited f (snd (acquire_wait (snd (xSemaphoreTake f))))"
        by (rule waited_trans)
      with False True show ?thesis by (simp add: acquire_wait.simps[of f])
    next
      case no: False
      with False show ?thesis
        by (simp add: acquire_wait.simps[of f] xSemaphoreTake_waited)
    qed
  qed
qed

lemma SectorPool_sync_waited: "waited f (snd (SectorPool_sync avoid f))"
proof (induction avoid f rule: SectorPool_sync.induct)
  case (1 avoid f)
  show ?case
  proof (cases "int (popcount (slot_mask (sector_pool f))) \<noteq> sint (32 - avoid)")
    case False
    then show ?thesis by (simp add: SectorPool_sync.simps[of avoid f] waited_refl)
  next
    case True
    show ?thesis
    proof (cases "fst (xSemaphoreTake f)")
      case pass: True
      with True 1 have "waited (snd (xSemaphoreTake f)) (snd (SectorPool_sync avoid (snd (xSemaphoreTake f))))"
        by simp
      with xSemaphoreTake_waited[of f] have "waited f (snd (SectorPool_sync avoid (snd (xSemaphoreTake f))))"
        by (rule waited_trans)
      with True pass show ?thesis by (simp add: SectorPool_sync.simps[of avoid f])
    next
      case no: False
      with True show ?thesis
        by (simp add: SectorPool_sync.simps[of avoid f] xSemaphoreTake_waited)
    qed
  qed
qed

lemmas acquire_wait_frame [simp] = waitedD [OF acquire_wait_waited]

lemmas SectorPool_sync_frame [simp] = waitedD [OF SectorPool_sync_waited]

lemmas usbh_msc_finished_frame [simp] = waitedD [OF usbh_msc_finished_waited]

lemma acquire_wait_write_error [simp]: "write_error f \<Longrightarrow> write_error (snd (acquire_wait f))"
  using acquire_wait_waited by (rule waited_write_error)

lemma SectorPool_sync_write_error [simp]: "write_error f \<Longrightarrow> write_error (snd (SectorPool_sync avoid f))"
  using SectorPool_sync_waited by (rule waited_write_error)

lemma usbh_msc_finished_write_error [simp]: "write_error f \<Longrightarrow> write_error (usbh_msc_finished result slot f)"
  using usbh_msc_finished_waited by (rule waited_write_error)

lemma acquire_frame [simp]:
  "size' (sector_pool (snd (acquire f))) = size' (sector_pool f)"
  "first_sector_nbr (snd (acquire f)) = first_sector_nbr f"
  "current_sector (snd (acquire f)) = current_sector f"
  "current_offset (snd (acquire f)) = current_offset f"
  "state (snd (acquire f)) = state f"
  "last_progress_percent (snd (acquire f)) = last_progress_percent f"
  "lseek_results (world (snd (acquire f))) = lseek_results (world f)"
  "submit_results (world (snd (acquire f))) = submit_results (world f)"
  "submitted (world (snd (acquire f))) = submitted (world f)"
  by (simp_all add: acquire_def Let_def)

lemma acquire_write_error [simp]: "write_error f \<Longrightarrow> write_error (snd (acquire f))"
  by (simp add: acquire_def Let_def)

lemma is_available_slotI: "i < size' p \<Longrightarrow> \<not> bit (slot_mask p) i \<Longrightarrow> is_available_slot p"
  by (auto simp: is_available_slot_def list_ex_iff)

lemma acquire_wait_available: "is_available_slot (sector_pool f) \<Longrightarrow> acquire_wait f = (True, f)"
  by (simp add: acquire_wait.simps[of f])

lemma acquire_available:
  "is_available_slot (sector_pool f) \<Longrightarrow>
   acquire f = (Some (countr_one (slot_mask (sector_pool f))),
      f\<lparr>sector_pool := (sector_pool f)
          \<lparr>slot_mask := slot_mask (sector_pool f) OR push_bit (countr_one (slot_mask (sector_pool f))) 1,
           pool := (pool (sector_pool f))(countr_one (slot_mask (sector_pool f)) :=
                      (pool (sector_pool f) (countr_one (slot_mask (sector_pool f))))\<lparr>data := replicate (unat SECTOR_SIZE) 0\<rparr>)\<rparr>\<rparr>)"
  by (simp add: acquire_def acquire_wait_available get_available_slot_def Let_def)

subsection \<open>Valid ranges only grow\<close>

lemma covers_refl: "covers a a"
  by (simp add: covers_def split: option.splits)

lemma covers_trans: "covers a b \<Longrightarrow> covers b c \<Longrightarrow> covers a c"
  by (auto simp: covers_def split: option.splits)

lemma grows_refl: "head_ok s \<Longrightarrow> tail_ok s \<Longrightarrow> grows s s"
  by (simp add: grows_def covers_refl)

lemma grows_trans: "grows a b \<Longrightarrow> grows b c \<Longrightarrow> grows a c"
  by (auto simp: grows_def intro: covers_trans)

lemma grows_ok: "grows s s' \<Longrightarrow> head_ok s' \<and> tail_ok s'"
  by (simp add: grows_def)

lemma merge_start: "start (merge a b) \<le> start a"
  by (simp add: merge_def)

lemma merge_end: "end' a \<le> end' (merge a b)"
  by (simp add: merge_def)

lemma merge_start0: "start a = 0 \<Longrightarrow> start (merge a b) = 0"
  by (simp add: merge_def)

lemma merge_end_le: "end' a \<le> T \<Longrightarrow> end' b \<le> T \<Longrightarrow> end' (merge a b) \<le> T"
  by (simp add: merge_def)

lemma merge_end_ge: "x \<le> end' a \<Longrightarrow> x \<le> end' (merge a b)"
  by (rule order_trans[OF _ merge_end])

lemma merge_start_le: "start a \<le> x \<Longrightarrow> start (merge a b) \<le> x"
  by (rule order_trans[OF merge_start])

lemma merge_touch:
  "start b \<le> end' a \<Longrightarrow> start a \<le> end' b \<Longrightarrow>
   merge a b = \<lparr>start = min (start a) (start b), end' = max (end' a) (end' b)\<rparr>"
  by (simp add: merge_def)

lemma extend_valid_part_total_size [simp]:
  "total_size (state (extend_valid_part p f)) = total_size (state f)"
  by (simp add: extend_valid_part_def Let_def)

lemma extend_valid_part_grows:
  assumes "head_ok (state f)" "tail_ok (state f)" "end' p \<le> total_size (state f)"
  shows "grows (state f) (state (extend_valid_part p f))"
  using assms
  by (auto simp: grows_def covers_def head_ok_def tail_ok_def extend_valid_part_def Let_def
        merge_start merge_end merge_start0 merge_end_le
        intro: merge_end_ge merge_start_le
        split: option.splits)

subsection \<open>The steps of the writer\<close>

lemma lseek_frame [simp]:
  "sector_pool (snd (lseek f)) = sector_pool f"
  "write_error (snd (lseek f)) = write_error f"
  "first_sector_nbr (snd (lseek f)) = first_sector_nbr f"
  "current_sector (snd (lseek f)) = current_sector f"
  "current_offset (snd (lseek f)) = current_offset f"
  "state (snd (lseek f)) = state f"
  "submit_results (world (snd (lseek f))) = submit_results (world f)"
  "sem_events (world (snd (lseek f))) = sem_events (world f)"
  "submitted (world (snd (lseek f))) = submitted (world f)"
  by (simp_all add: lseek_def split: list.splits)

lemma usbh_msc_submit_request_frame [simp]:
  "sector_pool (snd (usbh_msc_submit_request slot f)) = sector_pool f"
  "write_error (snd (usbh_msc_submit_request slot f)) = write_error f"
  "first_sector_nbr (snd (usbh_msc_submit_request slot f)) = first_sector_nbr f"
  "current_sector (snd (usbh_msc_submit_request slot f)) = current_sector f"
  "current_offset (snd (usbh_msc_submit_request slot f)) = current_offset f"
  "state (snd (usbh_msc_submit_request slot f)) = state f"
  "lseek_results (world (snd (usbh_msc_submit_request slot f))) = lseek_results (world f)"
  "sem_events (world (snd (usbh_msc_submit_request slot f))) = sem_events (world f)"
  by (simp_all add: usbh_msc_submit_request_def Let_def)

lemma extend_valid_part_frame [simp]:
  "sector_pool (extend_valid_part p f) = sector_pool f"
  "write_error (extend_valid_part p f) = write_error f"
  "first_sector_nbr (extend_valid_part p f) = first_sector_nbr f"
  "current_sector (extend_valid_part p f) = current_sector f"
  "current_offset (extend_valid_part p f) = current_offset f"
  "world (extend_valid_part p f) = world f"
  by (simp_all add: extend_valid_part_def Let_def)

lemma write_current_sector_returns:
  "current_sector f = Some cs \<Longrightarrow> \<exists>r. write_current_sector f = Inr r"
  by (auto simp: write_current_sector_def Let_def)

lemma write_current_sector_frame:
  assumes "write_current_sector f = Inr r"
  shows "sector_pool (snd r) = sector_pool f"
    and "write_error (snd r) = write_error f"
    and "first_sector_nbr (snd r) = first_sector_nbr f"
    and "current_sector (snd r) = current_sector f"
    and "current_offset (snd r) = current_offset f"
    and "total_size (state (snd r)) = total_size (state f)"
    and "sem_events (world (snd r)) = sem_events (world f)"
  using assms
  by (auto simp: write_current_sector_def Let_def split: option.splits if_splits)

lemma write_current_sector_grows:
  assumes "write_current_sector f = Inr r" "head_ok (state f)" "tail_ok (state f)"
  shows "grows (state f) (state (snd r))"
proof (cases "fst r")
  case False
  with assms show ?thesis
    by (auto simp: write_current_sector_def Let_def grows_refl split: option.splits if_splits)
next
  case True
  with assms(1) obtain p where "snd r = extend_valid_part p (snd (usbh_msc_submit_request (the (current_sector f)) (snd (lseek f))))"
     and "end' p \<le> total_size (state f)"
    by (auto simp: write_current_sector_def Let_def split: option.splits if_splits)
  with assms(2,3) show ?thesis
    using extend_valid_part_grows[of "snd (usbh_msc_submit_request (the (current_sector f)) (snd (lseek f)))" p]
    by simp
qed

lemma discard_current_sector_frame [simp]:
  "write_error (discard_current_sector f) = write_error f"
  "first_sector_nbr (discard_current_sector f) = first_sector_nbr f"
  "current_sector (discard_current_sector f) = None"
  "current_offset (discard_current_sector f) = current_offset f"
  "state (discard_current_sector f) = state f"
  "world (discard_current_sector f) = world f"
  "pool (sector_pool (discard_current_sector f)) = pool (sector_pool f)"
  by (simp_all add: discard_current_sector_def release_def split: option.splits)

lemma seek_frame [simp]:
  "fst (seek offset f)"
  "write_error (snd (seek offset f)) = write_error f"
  "first_sector_nbr (snd (seek offset f)) = first_sector_nbr f"
  "current_offset (snd (seek offset f)) = offset"
  "state (snd (seek offset f)) = state f"
  "world (snd (seek offset f)) = world f"
  "pool (sector_pool (snd (seek offset f))) = pool (sector_pool f)"
  by (simp_all add: seek_def Let_def split: option.splits)


lemma open_sector_frame [simp]:
  "first_sector_nbr (snd (open_sector f)) = first_sector_nbr f"
  "current_offset (snd (open_sector f)) = current_offset f"
  "state (snd (open_sector f)) = state f"
  "lseek_results (world (snd (open_sector f))) = lseek_results (world f)"
  "submit_results (world (snd (open_sector f))) = submit_results (world f)"
  "submitted (world (snd (open_sector f))) = submitted (world f)"
  by (simp_all add: open_sector_def Let_def split: option.splits)

lemma open_sector_write_error [simp]:
  "write_error f \<Longrightarrow> write_error (snd (open_sector f))"
  by (simp add: open_sector_def Let_def split: option.splits)




lemma fill_sector_frame [simp]:
  "write_error (snd (fill_sector dat cs f)) = write_error f"
  "first_sector_nbr (snd (fill_sector dat cs f)) = first_sector_nbr f"
  "current_sector (snd (fill_sector dat cs f)) = current_sector f"
  "current_offset (snd (fill_sector dat cs f)) = current_offset f"
  "state (snd (fill_sector dat cs f)) = state f"
  "world (snd (fill_sector dat cs f)) = world f"
  by (simp_all add: fill_sector_def Let_def)

lemma flush_sector_cases:
  assumes "flush_sector cs n f = Inr g"
  shows "g = f \<or> (\<exists>q. write_current_sector f = Inr q \<and> g = (snd q)\<lparr>current_sector := None\<rparr>)"
  using assms by (auto simp: flush_sector_def Let_def split: if_splits sum.splits)

lemma flush_sector_grows:
  assumes "flush_sector cs n f = Inr g" "head_ok (state f)" "tail_ok (state f)"
  shows "grows (state f) (state g)"
  using flush_sector_cases[OF assms(1)] assms(2,3) write_current_sector_grows[of f]
  by (auto simp: grows_refl)

lemma write_chunk_cases:
  assumes "write_chunk dat f = Inr r"
  shows "(fst (open_sector f) = None \<and> r = (None, snd (open_sector f))) \<or>
         (\<exists>cs g. fst (open_sector f) = Some cs \<and>
            flush_sector cs (fst (fill_sector dat cs (snd (open_sector f))))
                (snd (fill_sector dat cs (snd (open_sector f)))) = Inr g \<and>
            r = (Some (fst (fill_sector dat cs (snd (open_sector f)))),
                 snd (seek (current_offset g + of_nat (fst (fill_sector dat cs (snd (open_sector f))))) g)))"
  using assms by (auto simp: write_chunk_def Let_def split: option.splits sum.splits if_splits)

lemma write_chunk_grows:
  assumes "write_chunk dat f = Inr r" "head_ok (state f)" "tail_ok (state f)"
  shows "grows (state f) (state (snd r))"
  using write_chunk_cases[OF assms(1)]
proof (elim disjE conjE exE)
  assume "r = (None, snd (open_sector f))"
  with assms(2,3) show ?thesis by (simp add: grows_refl)
next
  fix cs g
  assume fl: "flush_sector cs (fst (fill_sector dat cs (snd (open_sector f))))
                (snd (fill_sector dat cs (snd (open_sector f)))) = Inr g"
    and r: "r = (Some (fst (fill_sector dat cs (snd (open_sector f)))),
                 snd (seek (current_offset g + of_nat (fst (fill_sector dat cs (snd (open_sector f))))) g))"
  from flush_sector_grows[OF fl] assms(2,3) have "grows (state f) (state g)" by simp
  with r show ?thesis by simp
qed

lemma write_loop_Nil: "write_loop [] f = Inr (True, f)"
  by (simp add: write_loop.simps[of "[]" f])

lemma write_loop_step:
  "dat \<noteq> [] \<Longrightarrow> write_loop dat f =
     (case write_chunk dat f of
        Inl a \<Rightarrow> Inl a
      | Inr r \<Rightarrow> (case fst r of None \<Rightarrow> Inr (False, snd r)
                   | Some write_size \<Rightarrow> write_loop (drop write_size dat) (snd r)))"
  by (simp add: write_loop.simps[of dat f])

lemma write_loop_grows:
  "write_loop dat f = Inr r \<Longrightarrow> head_ok (state f) \<Longrightarrow> tail_ok (state f) \<Longrightarrow> grows (state f) (state (snd r))"
proof (induction dat f arbitrary: r rule: write_loop.induct)
  case (1 dat f)
  show ?case
  proof (cases "dat = []")
    case True
    with 1 show ?thesis by (auto simp: write_loop_Nil grows_refl)
  next
    case False
    with "1.prems"(1) obtain q where q: "write_chunk dat f = Inr q"
      by (auto simp: write_loop_step split: sum.splits)
    from write_chunk_grows[OF q "1.prems"(2,3)] have g: "grows (state f) (state (snd q))" .
    show ?thesis
    proof (cases "fst q")
      case None
      with False q "1.prems"(1) g show ?thesis by (auto simp: write_loop_step)
    next
      case (Some n)
      with False q "1.prems"(1) have "write_loop (drop n dat) (snd q) = Inr r"
        by (auto simp: write_loop_step)
      with "1.IH"[OF False q Some] grows_ok[OF g] have "grows (state (snd q)) (state (snd r))"
        by simp
      with g show ?thesis by (rule grows_trans)
    qed
  qed
qed

lemma sync_pool_frame:
  assumes "sync_pool a f = Inr r"
  shows "state (snd r) = state f" "submitted (world (snd r)) = submitted (world f)"
    "current_sector (snd r) = current_sector f" "current_offset (snd r) = current_offset f"
    "pool (sector_pool (snd r)) = pool (sector_pool f)"
  using assms by (auto simp: sync_pool_def Let_def split: if_splits)

lemma sync_pool_returns: "\<exists>r. sync_pool a f = Inr r"
  by (auto simp: sync_pool_def Let_def)

lemma sync_pool_write_error:
  "write_error f \<Longrightarrow> sync_pool a f = Inr r \<Longrightarrow> \<not> fst r \<and> write_error (snd r)"
  by (auto simp: sync_pool_def Let_def split: if_splits)

lemma copy_sector_frame [simp]:
  "write_error (copy_sector cs c f) = write_error f"
  "first_sector_nbr (copy_sector cs c f) = first_sector_nbr f"
  "current_sector (copy_sector cs c f) = current_sector f"
  "current_offset (copy_sector cs c f) = current_offset f"
  "state (copy_sector cs c f) = state f"
  "world (copy_sector cs c f) = world f"
  by (simp_all add: copy_sector_def Let_def)

lemma sync_cases:
  assumes "sync f = Inr r"
  shows "(current_sector f = None \<and> sync_pool 0 f = Inr r) \<or>
         (\<exists>cs. current_sector f = Some cs \<and> fst (acquire f) = None \<and> r = (False, snd (acquire f))) \<or>
         (\<exists>cs copied q. current_sector f = Some cs \<and> fst (acquire f) = Some copied \<and>
             write_current_sector (copy_sector cs copied (snd (acquire f))) = Inr q \<and>
             ((\<not> fst q \<and> r = (False, (snd q)\<lparr>current_sector := Some copied\<rparr>)) \<or>
              (fst q \<and> sync_pool 1 ((snd q)\<lparr>current_sector := Some copied\<rparr>) = Inr r)))"
  using assms
  by (auto simp: sync_def copy_sector_def Let_def split: option.splits sum.splits if_splits)

lemma sync_grows:
  assumes "sync f = Inr r" "head_ok (state f)" "tail_ok (state f)"
  shows "grows (state f) (state (snd r))"
  using sync_cases[OF assms(1)]
proof (elim disjE conjE exE)
  assume "sync_pool 0 f = Inr r"
  from sync_pool_frame(1)[OF this] assms(2,3) show ?thesis by (simp add: grows_refl)
next
  fix cs assume "r = (False, snd (acquire f))"
  with assms(2,3) show ?thesis by (simp add: grows_refl)
next
  fix cs copied q
  assume q: "write_current_sector (copy_sector cs copied (snd (acquire f))) = Inr q"
    and "\<not> fst q" "r = (False, (snd q)\<lparr>current_sector := Some copied\<rparr>)"
  with write_current_sector_grows[OF q] assms(2,3) show ?thesis by simp
next
  fix cs copied q
  assume q: "write_current_sector (copy_sector cs copied (snd (acquire f))) = Inr q"
    and sp: "sync_pool 1 ((snd q)\<lparr>current_sector := Some copied\<rparr>) = Inr r"
  from sync_pool_frame(1)[OF sp] write_current_sector_grows[OF q] assms(2,3)
  show ?thesis by simp
qed

lemma sync_returns: "\<exists>r. sync f = Inr r"
proof (cases "current_sector f")
  case None
  then show ?thesis using sync_pool_returns[of 0 f] by (simp add: sync_def)
next
  case (Some cs)
  show ?thesis
  proof (cases "fst (acquire f)")
    case None
    with Some show ?thesis by (auto simp: sync_def Let_def)
  next
    case (Some copied)
    have "current_sector (copy_sector cs copied (snd (acquire f))) = Some cs"
      using \<open>current_sector f = Some cs\<close> by simp
    from write_current_sector_returns[OF this] obtain q where
      q: "write_current_sector (copy_sector cs copied (snd (acquire f))) = Inr q" by blast
    with Some \<open>current_sector f = Some cs\<close> sync_pool_returns[of 1 "(snd q)\<lparr>current_sector := Some copied\<rparr>"]
    show ?thesis by (auto simp: sync_def Let_def copy_sector_def)
  qed
qed

lemma sync_write_error:
  assumes "write_error f" "sync f = Inr r"
  shows "\<not> fst r \<and> write_error (snd r)"
  using sync_cases[OF assms(2)]
proof (elim disjE conjE exE)
  assume "sync_pool 0 f = Inr r"
  with assms(1) show ?thesis by (rule sync_pool_write_error)
next
  fix cs assume "r = (False, snd (acquire f))"
  with assms(1) show ?thesis by simp
next
  fix cs copied q
  assume q: "write_current_sector (copy_sector cs copied (snd (acquire f))) = Inr q"
    and "r = (False, (snd q)\<lparr>current_sector := Some copied\<rparr>)"
  with write_current_sector_frame(2)[OF q] assms(1) show ?thesis by simp
next
  fix cs copied q
  assume q: "write_current_sector (copy_sector cs copied (snd (acquire f))) = Inr q"
    and sp: "sync_pool 1 ((snd q)\<lparr>current_sector := Some copied\<rparr>) = Inr r"
  from write_current_sector_frame(2)[OF q] assms(1)
  have "write_error ((snd q)\<lparr>current_sector := Some copied\<rparr>)" by simp
  then show ?thesis using sp by (rule sync_pool_write_error)
qed

lemma call_grows:
  assumes "call c f = Inr r" "head_ok (state f)" "tail_ok (state f)"
  shows "grows (state f) (state (snd r))"
proof (cases c)
  case (Seek offset)
  with assms show ?thesis by (auto simp: grows_refl)
next
  case (Write dat)
  with assms write_loop_grows[of dat f r] show ?thesis
    by (auto simp: write_bytes_def grows_refl split: if_splits)
next
  case Sync
  with assms sync_grows[of f r] show ?thesis by simp
next
  case (Finished result slot)
  with assms show ?thesis by (auto simp: grows_refl)
qed

lemma run_Cons_Inr:
  assumes "run (c # cs) f = Inr q"
  shows "\<exists>r q'. call c f = Inr r \<and> run cs (snd r) = Inr q' \<and> snd q = snd q'"
proof (cases c)
  case (Finished result slot)
  with assms show ?thesis
    by (intro exI[of _ "(True, usbh_msc_finished result slot f)"] exI[of _ q]) simp
next
  case (Seek offset)
  with assms show ?thesis by (simp split: sum.splits) force
next
  case (Write dat)
  with assms show ?thesis by (simp split: sum.splits) force
next
  case Sync
  with assms show ?thesis by (simp split: sum.splits) force
qed

lemma scenario_write:
  fixes mem :: "nat \<Rightarrow> uint8_t list" and w :: World
  assumes len: "length dat = 100" and n: "1 < n" "n < 32"
  defines "f0 \<equiv> PartialFile_new n mem 100 \<lparr>valid_head = None, valid_tail = None, total_size = 2048\<rparr> w"
  shows "write_bytes dat f0 = Inr (True,
     f0\<lparr>sector_pool := \<lparr>pool = (\<lambda>i. \<lparr>sector_nbr = 0, data = mem i\<rparr>)
                                  (0 := \<lparr>sector_nbr = 100, data = dat @ replicate 412 0\<rparr>),
                           slot_mask = push_bit n (- 1) OR 1, semaphore = False, size' = n\<rparr>,
         current_sector := Some 0, current_offset := 100\<rparr>)"
proof -
  have ne: "dat \<noteq> []" using len by auto
  have proj: "current_sector f0 = None" "current_offset f0 = 0" "first_sector_nbr f0 = 100"
    "state f0 = \<lparr>valid_head = None, valid_tail = None, total_size = 2048\<rparr>"
    "\<not> write_error f0"
    "sector_pool f0 = \<lparr>pool = (\<lambda>i. \<lparr>sector_nbr = 0, data = mem i\<rparr>),
        slot_mask = push_bit n (- 1), semaphore = False, size' = n\<rparr>"
    by (simp_all add: f0_def PartialFile_new_def SectorPool_new_def)
  have av: "is_available_slot (sector_pool f0)"
    using n by (auto simp: proj not_mask_bit intro!: is_available_slotI[of 0])
  have acq: "acquire f0 = (Some 0, f0\<lparr>sector_pool := \<lparr>pool = (\<lambda>i. \<lparr>sector_nbr = 0, data = mem i\<rparr>)
                                  (0 := \<lparr>sector_nbr = 0, data = replicate 512 0\<rparr>),
                           slot_mask = push_bit n (- 1) OR 1, semaphore = False, size' = n\<rparr>\<rparr>)"
    using n by (simp add: acquire_available[OF av] proj fresh_mask_countr_one SECTOR_SIZE_def)
  have op: "open_sector f0 = (Some 0, f0\<lparr>sector_pool := \<lparr>pool = (\<lambda>i. \<lparr>sector_nbr = 0, data = mem i\<rparr>)
                                  (0 := \<lparr>sector_nbr = 100, data = replicate 512 0\<rparr>),
                           slot_mask = push_bit n (- 1) OR 1, semaphore = False, size' = n\<rparr>,
         current_sector := Some 0\<rparr>)"
    by (simp add: open_sector_def acq proj Let_def get_sector_nbr_def FF_MAX_SS_def)
  show ?thesis
    using len
    by (simp add: write_bytes_def write_loop_step[OF ne] write_chunk_def op proj Let_def
        fill_sector_def flush_sector_def seek_def
        get_sector_nbr_def SECTOR_SIZE_def FF_MAX_SS_def write_loop_Nil)
qed

lemma sync_held:
  assumes cur: "current_sector f = Some cs"
    and used: "bit (slot_mask (sector_pool f)) cs"
    and av: "is_available_slot (sector_pool f)"
    and poke: "lseek_results (world f) = True # ls"
  defines "c \<equiv> countr_one (slot_mask (sector_pool f))"
    and "req \<equiv> pool (sector_pool f) cs"
    and "result \<equiv> (case submit_results (world f) of [] \<Rightarrow> USBH_FAIL | r # rs \<Rightarrow> r)"
  shows "\<exists>r. sync f = Inr r \<and> c \<noteq> cs \<and>
           submitted (world (snd r)) = submitted (world f) @ [(cs, sector_nbr req, data req, result)] \<and>
           current_sector (snd r) = Some c \<and>
           sector_nbr (pool (sector_pool (snd r)) c) = sector_nbr req \<and>
           data (pool (sector_pool (snd r)) c) = data req \<and>
           pool (sector_pool (snd r)) cs = req \<and>
           current_offset (snd r) = current_offset f \<and>
           state (snd r) =
             (if result = USBH_OK
              then state (extend_valid_part
                     \<lparr>start = get_offset f (sector_nbr req),
                      end' = min (get_offset f (sector_nbr req) + SECTOR_SIZE) (total_size (state f))\<rparr> f)
              else state f)"
proof -
  have ne: "c \<noteq> cs"
    using used countr_one_clear[of "slot_mask (sector_pool f)"] by (auto simp: c_def)
  let ?g = "copy_sector cs c (snd (acquire f))"
  have a: "fst (acquire f) = Some c"
    by (simp add: acquire_available[OF av] c_def)
  have gp: "pool (sector_pool ?g) = (pool (sector_pool f))(c := req)"
    using ne by (simp add: acquire_available[OF av] c_def[symmetric] copy_sector_def Let_def req_def fun_eq_iff)
  have gc: "current_sector ?g = Some cs" using cur by simp
  from write_current_sector_returns[OF gc] obtain q where q: "write_current_sector ?g = Inr q" by blast
  have qs: "submitted (world (snd q)) = submitted (world f) @ [(cs, sector_nbr req, data req, result)]"
    and qst: "state (snd q) =
             (if result = USBH_OK
              then state (extend_valid_part
                     \<lparr>start = get_offset f (sector_nbr req),
                      end' = min (get_offset f (sector_nbr req) + SECTOR_SIZE) (total_size (state f))\<rparr> f)
              else state f)"
    and qr: "fst q \<longleftrightarrow> result = USBH_OK"
    using q gc gp ne poke
    by (auto simp: write_current_sector_def lseek_def usbh_msc_submit_request_def Let_def
        get_offset_def result_def req_def extend_valid_part_def split: if_splits)
  have qp: "pool (sector_pool (snd q)) = (pool (sector_pool f))(c := req)"
    and qo: "current_offset (snd q) = current_offset f"
    using write_current_sector_frame(1,5)[OF q] gp by simp_all
  let ?f3 = "(snd q)\<lparr>current_sector := Some c\<rparr>"
  have sy: "sync f = (if \<not> fst q then Inr (False, ?f3) else sync_pool 1 ?f3)"
    using cur a q by (simp add: sync_def Let_def)
  show ?thesis
  proof (cases "fst q")
    case False
    with sy have "sync f = Inr (False, ?f3)" by simp
    with ne qs qst qp qo show ?thesis by (simp add: req_def)
  next
    case True
    from sync_pool_returns[of 1 ?f3] obtain r where r: "sync_pool 1 ?f3 = Inr r" by blast
    with sy True have "sync f = Inr r" by simp
    with ne qs qst qp qo sync_pool_frame[OF r] show ?thesis by (simp add: req_def)
  qed
qed

section \<open>The claims\<close>

subsection \<open>Writing\<close>

text \<open>
  C1. \<open>write\<close> should return true only if every submission it triggered succeeded
  synchronously. The loop drops the result of \<open>write_current_sector\<close>: in the scenario, a
  write of one full sector whose poke fails returns true although nothing reached the
  block layer, and so does a write whose request the block layer rejects.
\<close>

theorem write_drops_failed_submission:
  "returned [Write (replicate 512 1)]
      (scenario_file (scenario_world\<lparr>lseek_results := [False]\<rparr>)) = Some [True] \<and>
   submitted (world (file_after [Write (replicate 512 1)]
      (scenario_file (scenario_world\<lparr>lseek_results := [False]\<rparr>)))) = [] \<and>
   returned [Write (replicate 512 1)]
      (scenario_file (scenario_world\<lparr>submit_results := [USBH_FAIL]\<rparr>)) = Some [True] \<and>
   map (\<lambda>e. snd (snd (snd e))) (submitted (world (file_after [Write (replicate 512 1)]
      (scenario_file (scenario_world\<lparr>submit_results := [USBH_FAIL]\<rparr>))))) = [USBH_FAIL]"
  by code_simp

subsection \<open>The sector pool\<close>

text \<open>
  C2. \<open>SectorPool::sync(avoid)\<close> should return true once \<open>N - avoid\<close> of the \<open>N\<close> slots
  are free. The loop compares the number of set bits of \<open>slot_mask\<close> with \<open>32 - avoid\<close>,
  and the bits above \<open>N\<close> are always set: on the fresh pool of four slots (28 bits set,
  all slots free) \<open>sync(0)\<close> waits and times out, and it returns true at once after a
  write of 2048 bytes has put all four slots in use, with four requests in flight.
\<close>

theorem SectorPool_sync_counts_used_slots:
  "popcount (slot_mask (sector_pool (scenario_file scenario_world))) = 28 \<and>
   fst (SectorPool_sync 0 (scenario_file scenario_world)) = False \<and>
   slot_mask (sector_pool (file_after [Write (replicate 2048 1)] (scenario_file scenario_world))) = - 1 \<and>
   fst (SectorPool_sync 0 (file_after [Write (replicate 2048 1)] (scenario_file scenario_world))) = True"
  by code_simp

subsection \<open>Sticky write errors\<close>

text \<open>
  C3, as stated: once a completion has reported a failure, no further sector is
  submitted. In the scenario, 612 bytes are written (sector 100 is submitted, 100 bytes
  stay buffered), the completion of slot 0 reports a failure, and the next \<open>sync\<close> still
  submits the buffered sector 101 before it returns false.
\<close>

theorem sync_submits_after_write_error:
  "write_error (file_after [Write (replicate 612 1), Finished USBH_FAIL 0] (scenario_file scenario_world)) \<and>
   submitted_sectors (file_after [Write (replicate 612 1), Finished USBH_FAIL 0]
      (scenario_file scenario_world)) = [100] \<and>
   returned [Sync] (file_after [Write (replicate 612 1), Finished USBH_FAIL 0]
      (scenario_file scenario_world)) = Some [False] \<and>
   submitted_sectors (file_after [Sync] (file_after [Write (replicate 612 1), Finished USBH_FAIL 0]
      (scenario_file scenario_world))) = [100, 101]"
  by code_simp

text \<open>
  C3, amended. Once \<open>write_error\<close> is set it stays set through every sequence of seeks,
  writes, syncs and completion callbacks; the sequence never stops the process; every
  \<open>write\<close> and every \<open>sync\<close> in it returns false; and a sequence without a \<open>sync\<close>
  submits nothing (a \<open>write\<close> returns before it touches anything).
\<close>

theorem write_error_sticky:
  assumes "write_error f"
  shows "\<exists>rs f'. run ops f = Inr (rs, f') \<and> write_error f' \<and>
           (\<forall>c r. (c, r) \<in> set rs \<longrightarrow> c = Sync \<or> (\<exists>dat. c = Write dat) \<longrightarrow> \<not> r) \<and>
           (Sync \<notin> set ops \<longrightarrow> submitted (world f') = submitted (world f))"
  using assms
proof (induction ops arbitrary: f)
  case Nil
  then show ?case by simp
next
  case (Cons c ops)
  show ?case
  proof (cases c)
    case (Seek offset)
    have "write_error (snd (seek offset f))" using Cons.prems by simp
    from Cons.IH[OF this] obtain rs f' where
      "run ops (snd (seek offset f)) = Inr (rs, f')" "write_error f'"
      "\<forall>c r. (c, r) \<in> set rs \<longrightarrow> c = Sync \<or> (\<exists>dat. c = Write dat) \<longrightarrow> \<not> r"
      "Sync \<notin> set ops \<longrightarrow> submitted (world f') = submitted (world (snd (seek offset f)))"
      by blast
    with Seek show ?thesis by auto
  next
    case (Write dat)
    from Cons.IH[OF Cons.prems] obtain rs f' where
      "run ops f = Inr (rs, f')" "write_error f'"
      "\<forall>c r. (c, r) \<in> set rs \<longrightarrow> c = Sync \<or> (\<exists>dat. c = Write dat) \<longrightarrow> \<not> r"
      "Sync \<notin> set ops \<longrightarrow> submitted (world f') = submitted (world f)"
      by blast
    with Write Cons.prems show ?thesis by (auto simp: write_bytes_def)
  next
    case Sync
    from sync_returns[of f] obtain q where q: "sync f = Inr q" by blast
    from sync_write_error[OF Cons.prems q] have nq: "\<not> fst q" and we: "write_error (snd q)" by simp_all
    from Cons.IH[OF we] obtain rs f' where
      "run ops (snd q) = Inr (rs, f')" "write_error f'"
      "\<forall>c r. (c, r) \<in> set rs \<longrightarrow> c = Sync \<or> (\<exists>dat. c = Write dat) \<longrightarrow> \<not> r"
      by blast
    with Sync q nq show ?thesis by auto
  next
    case (Finished result slot)
    have "write_error (usbh_msc_finished result slot f)" using Cons.prems by simp
    from Cons.IH[OF this] obtain rs f' where
      "run ops (usbh_msc_finished result slot f) = Inr (rs, f')" "write_error f'"
      "\<forall>c r. (c, r) \<in> set rs \<longrightarrow> c = Sync \<or> (\<exists>dat. c = Write dat) \<longrightarrow> \<not> r"
      "Sync \<notin> set ops \<longrightarrow> submitted (world f') = submitted (world (usbh_msc_finished result slot f))"
      by blast
    with Finished show ?thesis by auto
  qed
qed

theorem write_error_sticky_witness:
  "write_error (file_after [Write (replicate 612 1), Finished USBH_FAIL 0] (scenario_file scenario_world)) \<and>
   (\<exists>rs f'. run [Write [1, 2], Seek 0, Write [3]]
        (file_after [Write (replicate 612 1), Finished USBH_FAIL 0] (scenario_file scenario_world))
          = Inr (rs, f') \<and>
      write_error f' \<and> map snd rs = [False, True, False] \<and>
      submitted (world f') =
        submitted (world (file_after [Write (replicate 612 1), Finished USBH_FAIL 0]
          (scenario_file scenario_world))))"
proof -
  let ?f = "file_after [Write (replicate 612 1), Finished USBH_FAIL 0] (scenario_file scenario_world)"
  have e: "write_error ?f" by code_simp
  from write_error_sticky[OF e, of "[Write [1, 2], Seek 0, Write [3]]"]
  obtain rs f' where r: "run [Write [1, 2], Seek 0, Write [3]] ?f = Inr (rs, f')"
    and e': "write_error f'"
    and s: "submitted (world f') = submitted (world ?f)"
    by auto
  have "returned [Write [1, 2], Seek 0, Write [3]] ?f = Some [False, True, False]"
    by code_simp
  with r have m: "map snd rs = [False, True, False]"
    by (simp add: returned_def)
  show ?thesis
    by (intro conjI exI[of _ rs] exI[of _ f']) (rule e r e' m s)+
qed

subsection \<open>The valid ranges\<close>

text \<open>
  C4, as stated: a tail that is present ends at \<open>total_size\<close>. In the scenario, after a
  seek to 512 and a write of 512 bytes the tail is the range from 512 to 1024, in a file of
  2048 bytes.
\<close>

theorem tail_ends_before_total_size:
  "valid_tail (state (file_after [Seek 512, Write (replicate 512 1)] (scenario_file scenario_world)))
     = Some \<lparr>start = 512, end' = 1024\<rparr> \<and>
   total_size (state (file_after [Seek 512, Write (replicate 512 1)] (scenario_file scenario_world)))
     = 2048"
  by code_simp

text \<open>
  C4, amended. From a state in which the head, if present, starts at 0 and no range ends
  beyond \<open>total_size\<close>, every sequence of operations that returns leads to such a state
  again: the head, if present, starts at 0; head and tail end at or before \<open>total_size\<close>
  (the tail need not reach it); neither range has shrunk (\<open>covers\<close>); and \<open>total_size\<close>
  is unchanged.
\<close>

theorem valid_ranges_monotone:
  assumes "run ops f = Inr q" and "head_ok (state f)" and "tail_ok (state f)"
  shows "head_ok (state (snd q)) \<and> tail_ok (state (snd q)) \<and>
         covers (valid_head (state f)) (valid_head (state (snd q))) \<and>
         covers (valid_tail (state f)) (valid_tail (state (snd q))) \<and>
         total_size (state (snd q)) = total_size (state f)"
proof -
  have "grows (state f) (state (snd q))"
    using assms
  proof (induction ops arbitrary: f q)
    case Nil
    then show ?case by (auto simp: grows_refl)
  next
    case (Cons c cs)
    from run_Cons_Inr[OF Cons.prems(1)] obtain r q' where r: "call c f = Inr r"
      and q': "run cs (snd r) = Inr q'" and q: "snd q = snd q'"
      by blast
    from call_grows[OF r Cons.prems(2,3)] have g: "grows (state f) (state (snd r))" .
    from Cons.IH[OF q'] grows_ok[OF g] have "grows (state (snd r)) (state (snd q'))" by simp
    with g q show ?case by (auto intro: grows_trans)
  qed
  then show ?thesis by (simp add: grows_def)
qed

theorem valid_ranges_monotone_witness:
  "head_ok (state (scenario_file scenario_world)) \<and>
   tail_ok (state (scenario_file scenario_world)) \<and>
   (\<exists>q. run [Seek 512, Write (replicate 512 1), Seek 0, Write (replicate 600 2), Sync]
           (scenario_file scenario_world) = Inr q \<and>
        head_ok (state (snd q)) \<and> tail_ok (state (snd q)) \<and>
        valid_head (state (snd q)) = Some \<lparr>start = 0, end' = 1024\<rparr> \<and>
        covers (valid_tail (state (scenario_file scenario_world))) (valid_tail (state (snd q))))"
proof -
  let ?f = "scenario_file scenario_world"
  let ?ops = "[Seek 512, Write (replicate 512 1), Seek 0, Write (replicate 600 2), Sync]"
  have h: "head_ok (state ?f)" and t: "tail_ok (state ?f)" by code_simp+
  have "returned ?ops ?f \<noteq> None" by code_simp
  then obtain q where q: "run ?ops ?f = Inr q"
    by (auto simp: returned_def split: sum.splits)
  have "valid_head (state (file_after ?ops ?f)) = Some \<lparr>start = 0, end' = 1024\<rparr>"
    by code_simp
  with q have v: "valid_head (state (snd q)) = Some \<lparr>start = 0, end' = 1024\<rparr>"
    by (simp add: file_after_def)
  from valid_ranges_monotone[OF q h t] have g: "head_ok (state (snd q))" "tail_ok (state (snd q))"
    "covers (valid_tail (state ?f)) (valid_tail (state (snd q)))"
    by simp_all
  show ?thesis
    by (intro conjI exI[of _ q]) (rule h t q g v)+
qed

subsection \<open>Syncing twice\<close>

text \<open>
  C5, as stated: a second \<open>sync\<close> with no write in between submits nothing. In the
  scenario, after a write of 100 bytes one \<open>sync\<close> has submitted sector 100 once, and a
  second \<open>sync\<close> submits it again.
\<close>

theorem second_sync_submits_again:
  "submitted_sectors (file_after [Write (replicate 100 1), Sync] (scenario_file scenario_world))
     = [100] \<and>
   submitted_sectors (file_after [Write (replicate 100 1), Sync, Sync] (scenario_file scenario_world))
     = [100, 100]"
  by code_simp

text \<open>
  C5, amended. A \<open>sync\<close> with no current sector submits nothing and leaves none. A
  \<open>sync\<close> with a current sector, the second of two as much as the first, acquires a
  further slot, submits the held sector (the same sector number and the same bytes each
  time) when a slot is free and the poke succeeds, and goes on with the copy: the current
  sector is then another slot with the same sector number and bytes, at the same offset.
\<close>

theorem sync_resubmits_held_sector:
  "(current_sector f = None \<longrightarrow>
      (\<exists>r. sync f = Inr r \<and> submitted (world (snd r)) = submitted (world f) \<and>
            current_sector (snd r) = None)) \<and>
   (current_sector f = Some cs \<and> bit (slot_mask (sector_pool f)) cs \<and>
    is_available_slot (sector_pool f) \<and> lseek_results (world f) = True # ls \<longrightarrow>
      (\<exists>r c. sync f = Inr r \<and> c \<noteq> cs \<and> current_sector (snd r) = Some c \<and>
            submitted (world (snd r)) = submitted (world f) @
              [(cs, sector_nbr (pool (sector_pool f) cs), data (pool (sector_pool f) cs),
                case submit_results (world f) of [] \<Rightarrow> USBH_FAIL | x # xs \<Rightarrow> x)] \<and>
            sector_nbr (pool (sector_pool (snd r)) c) = sector_nbr (pool (sector_pool f) cs) \<and>
            data (pool (sector_pool (snd r)) c) = data (pool (sector_pool f) cs) \<and>
            current_offset (snd r) = current_offset f))"
proof (intro conjI impI)
  assume none: "current_sector f = None"
  from sync_pool_returns[of 0 f] obtain r where r: "sync_pool 0 f = Inr r" by blast
  with none sync_pool_frame[OF r]
  show "\<exists>r. sync f = Inr r \<and> submitted (world (snd r)) = submitted (world f) \<and>
            current_sector (snd r) = None"
    by (simp add: sync_def)
next
  assume "current_sector f = Some cs \<and> bit (slot_mask (sector_pool f)) cs \<and>
    is_available_slot (sector_pool f) \<and> lseek_results (world f) = True # ls"
  then have h: "current_sector f = Some cs" "bit (slot_mask (sector_pool f)) cs"
    "is_available_slot (sector_pool f)" "lseek_results (world f) = True # ls" by simp_all
  from sync_held[OF h] show "\<exists>r c. sync f = Inr r \<and> c \<noteq> cs \<and> current_sector (snd r) = Some c \<and>
            submitted (world (snd r)) = submitted (world f) @
              [(cs, sector_nbr (pool (sector_pool f) cs), data (pool (sector_pool f) cs),
                case submit_results (world f) of [] \<Rightarrow> USBH_FAIL | x # xs \<Rightarrow> x)] \<and>
            sector_nbr (pool (sector_pool (snd r)) c) = sector_nbr (pool (sector_pool f) cs) \<and>
            data (pool (sector_pool (snd r)) c) = data (pool (sector_pool f) cs) \<and>
            current_offset (snd r) = current_offset f"
    by blast
qed

theorem sync_resubmits_held_sector_witness:
  "current_sector (scenario_file scenario_world) = None \<and>
   (\<exists>r. sync (scenario_file scenario_world) = Inr r \<and>
        submitted (world (snd r)) = [] \<and> current_sector (snd r) = None) \<and>
   current_sector (file_after [Write (replicate 100 1), Sync] (scenario_file scenario_world)) = Some 1 \<and>
   (\<exists>r. sync (file_after [Write (replicate 100 1), Sync] (scenario_file scenario_world)) = Inr r \<and>
        current_sector (snd r) = Some 2 \<and>
        map (\<lambda>e. fst (snd e)) (submitted (world (snd r))) = [100, 100])"
proof -
  let ?f = "scenario_file scenario_world"
  let ?g = "file_after [Write (replicate 100 1), Sync] (scenario_file scenario_world)"
  have n: "current_sector ?f = None" and l: "submitted (world ?f) = []" by code_simp+
  from sync_resubmits_held_sector[of ?f] n l
  have a: "\<exists>r. sync ?f = Inr r \<and> submitted (world (snd r)) = [] \<and> current_sector (snd r) = None"
    by simp
  have c: "current_sector ?g = Some 1" by code_simp
  have u: "bit (slot_mask (sector_pool ?g)) (1::nat)" by code_simp
  have v: "is_available_slot (sector_pool ?g)" by code_simp
  have p: "lseek_results (world ?g) = True # replicate 6 True" by code_simp
  have s: "map (\<lambda>e. fst (snd e)) (submitted (world ?g)) = [100]"
    and d: "sector_nbr (pool (sector_pool ?g) 1) = 100" by code_simp+
  from sync_resubmits_held_sector[of ?g 1 "replicate 6 True"] c u v p
  obtain r c' where r: "sync ?g = Inr r" and "c' \<noteq> 1" and "current_sector (snd r) = Some c'"
    and sub: "submitted (world (snd r)) = submitted (world ?g) @
              [(1, sector_nbr (pool (sector_pool ?g) 1), data (pool (sector_pool ?g) 1),
                case submit_results (world ?g) of [] \<Rightarrow> USBH_FAIL | x # xs \<Rightarrow> x)]"
    by auto
  have "current_sector (file_after [Sync] ?g) = Some 2" by code_simp
  with r have c2: "current_sector (snd r) = Some 2" by (simp add: file_after_def)
  from sub s d have m: "map (\<lambda>e. fst (snd e)) (submitted (world (snd r))) = [100, 100]" by simp
  have b: "\<exists>r. sync ?g = Inr r \<and> current_sector (snd r) = Some 2 \<and>
        map (\<lambda>e. fst (snd e)) (submitted (world (snd r))) = [100, 100]"
    by (intro exI[of _ r] conjI) (rule r c2 m)+
  show ?thesis
    by (intro conjI) (rule n a c b)+
qed

subsection \<open>Writing past the end\<close>




subsection \<open>A partial sector and a sync\<close>

text \<open>
  C7. In the scenario (sectors of 512 bytes, \<open>total_size = 2048\<close>, first LBA 100), for a
  pool of at least two slots, a successful poke and an accepted request: writing 100
  bytes at offset 0 returns true, and after the \<open>sync\<close> that follows exactly one request
  has been submitted, for LBA 100, with the 100 bytes followed by 412 zeros; the current
  sector is still held (it is slot 1 now), has sector number 100 and the same contents;
  and \<open>valid_head\<close> is the range from 0 to 512.
\<close>

theorem partial_sector_then_sync:
  fixes mem :: "nat \<Rightarrow> uint8_t list" and w :: World
  assumes len: "length dat = 100" and n: "1 < n" "n < 32"
    and poke: "lseek_results w = True # ls"
    and sub: "submit_results w = USBH_OK # ss"
    and log: "submitted w = []"
  shows "\<exists>f1 r. write_bytes dat (PartialFile_new n mem 100
                      \<lparr>valid_head = None, valid_tail = None, total_size = 2048\<rparr> w) = Inr (True, f1) \<and>
           sync f1 = Inr r \<and>
           submitted (world (snd r)) = [(0, 100, dat @ replicate 412 0, USBH_OK)] \<and>
           current_sector (snd r) = Some 1 \<and>
           sector_nbr (pool (sector_pool (snd r)) 1) = 100 \<and>
           data (pool (sector_pool (snd r)) 1) = dat @ replicate 412 0 \<and>
           current_offset (snd r) = 100 \<and>
           valid_head (state (snd r)) = Some \<lparr>start = 0, end' = 512\<rparr> \<and>
           valid_tail (state (snd r)) = None"
proof -
  let ?f0 = "PartialFile_new n mem 100 \<lparr>valid_head = None, valid_tail = None, total_size = 2048\<rparr> w"
  let ?f1 = "?f0\<lparr>sector_pool := \<lparr>pool = (\<lambda>i. \<lparr>sector_nbr = 0, data = mem i\<rparr>)
                                  (0 := \<lparr>sector_nbr = 100, data = dat @ replicate 412 0\<rparr>),
                           slot_mask = push_bit n (- 1) OR 1, semaphore = False, size' = n\<rparr>,
         current_sector := Some 0, current_offset := 100\<rparr>"
  have wr: "write_bytes dat ?f0 = Inr (True, ?f1)"
    using len n by (rule scenario_write)
  have cur: "current_sector ?f1 = Some 0" by simp
  have used: "bit (slot_mask (sector_pool ?f1)) 0" by (simp add: bit_or_iff)
  have av: "is_available_slot (sector_pool ?f1)"
    using n by (auto simp: not_mask_bit bit_or_iff bit_1_iff intro!: is_available_slotI[of 1])
  have pk: "lseek_results (world ?f1) = True # ls"
    using poke by (simp add: PartialFile_new_def)
  have c: "countr_one (slot_mask (sector_pool ?f1)) = 1"
    using n by (simp add: fresh_mask_countr_one')
  from sync_held[OF cur used av pk] obtain r where r: "sync ?f1 = Inr r"
    and r1: "submitted (world (snd r)) = submitted (world ?f1) @
               [(0, sector_nbr (pool (sector_pool ?f1) 0), data (pool (sector_pool ?f1) 0),
                 case submit_results (world ?f1) of [] \<Rightarrow> USBH_FAIL | r # rs \<Rightarrow> r)]"
    and r2: "current_sector (snd r) = Some (countr_one (slot_mask (sector_pool ?f1)))"
    and r3: "sector_nbr (pool (sector_pool (snd r)) (countr_one (slot_mask (sector_pool ?f1))))
               = sector_nbr (pool (sector_pool ?f1) 0)"
    and r4: "data (pool (sector_pool (snd r)) (countr_one (slot_mask (sector_pool ?f1))))
               = data (pool (sector_pool ?f1) 0)"
    and r5: "current_offset (snd r) = current_offset ?f1"
    and r6: "state (snd r) =
             (if (case submit_results (world ?f1) of [] \<Rightarrow> USBH_FAIL | r # rs \<Rightarrow> r) = USBH_OK
              then state (extend_valid_part
                     \<lparr>start = get_offset ?f1 (sector_nbr (pool (sector_pool ?f1) 0)),
                      end' = min (get_offset ?f1 (sector_nbr (pool (sector_pool ?f1) 0)) + SECTOR_SIZE)
                                 (total_size (state ?f1))\<rparr> ?f1)
              else state ?f1)"
    by blast
  have w1: "submit_results (world ?f1) = USBH_OK # ss" "submitted (world ?f1) = []"
    using sub log by (simp_all add: PartialFile_new_def)
  have st: "state (snd r) = \<lparr>valid_head = Some \<lparr>start = 0, end' = 512\<rparr>, valid_tail = None, total_size = 2048\<rparr>"
    using r6 w1
    by (simp add: PartialFile_new_def get_offset_def SECTOR_SIZE_def extend_valid_part_def Let_def)
  show ?thesis
    using wr r r1 r2 r3 r4 r5 st w1 c
    by (intro exI[of _ ?f1] exI[of _ r]) (simp add: PartialFile_new_def)
qed

theorem partial_sector_then_sync_witness:
  "length (replicate 100 (7 :: uint8_t)) = 100 \<and> (1 :: nat) < 4 \<and> (4 :: nat) < 32 \<and>
   lseek_results scenario_world = True # replicate 7 True \<and>
   submit_results scenario_world = USBH_OK # replicate 7 USBH_OK \<and>
   submitted scenario_world = [] \<and>
   (\<exists>f1 r. write_bytes (replicate 100 7) (scenario_file scenario_world) = Inr (True, f1) \<and>
      sync f1 = Inr r \<and>
      submitted (world (snd r)) = [(0, 100, replicate 100 7 @ replicate 412 0, USBH_OK)] \<and>
      current_sector (snd r) = Some 1 \<and>
      sector_nbr (pool (sector_pool (snd r)) 1) = 100 \<and>
      valid_head (state (snd r)) = Some \<lparr>start = 0, end' = 512\<rparr>)"
proof -
  have a: "length (replicate 100 (7 :: uint8_t)) = 100" by simp
  have b: "(1 :: nat) < 4" and c: "(4 :: nat) < 32" by simp_all
  have d: "lseek_results scenario_world = True # replicate 7 True"
    and e: "submit_results scenario_world = USBH_OK # replicate 7 USBH_OK"
    and g: "submitted scenario_world = []"
    by code_simp+
  from partial_sector_then_sync[OF a b c d e g, of "\<lambda>i. replicate 512 255"] a b c d e g
  show ?thesis unfolding scenario_file_def by blast
qed

subsection \<open>Sector mapping\<close>

text \<open>
  C8, as stated: for the offset \<open>total_size\<close> the result is strictly greater than the LBA
  of the last data sector. Sector numbers have 32 bits and the sum wraps around: in a file
  of 2048 bytes whose first sector is LBA 4294967292, the last byte lies in sector
  4294967295, and \<open>get_sector_nbr\<close> of the offset 2048 is 1.
\<close>

theorem past_end_sector_wraps:
  "get_sector_nbr (PartialFile_new 4 (\<lambda>i. replicate 512 255) 4294967292
       \<lparr>valid_head = None, valid_tail = None, total_size = 2048\<rparr> scenario_world) 2047
     = 4294967295 \<and>
   get_sector_nbr (PartialFile_new 4 (\<lambda>i. replicate 512 255) 4294967292
       \<lparr>valid_head = None, valid_tail = None, total_size = 2048\<rparr> scenario_world) 2048
     = 1 \<and>
   \<not> get_sector_nbr (PartialFile_new 4 (\<lambda>i. replicate 512 255) 4294967292
         \<lparr>valid_head = None, valid_tail = None, total_size = 2048\<rparr> scenario_world) 2047
       < get_sector_nbr (PartialFile_new 4 (\<lambda>i. replicate 512 255) 4294967292
         \<lparr>valid_head = None, valid_tail = None, total_size = 2048\<rparr> scenario_world) 2048"
  by (simp add: get_sector_nbr_def FF_MAX_SS_def PartialFile_new_def Let_def)

text \<open>
  C8, amended. For every offset below \<open>total_size\<close>, \<open>get_sector_nbr\<close> is
  \<open>first_sector_nbr + offset / SECTOR_SIZE\<close>. For the offset \<open>total_size\<close> itself the
  result is one more than that formula gives, so it differs from the sector of every byte
  of the file; and it is strictly greater than all of them, the last data sector included,
  as long as this past-the-end number still fits the 32 bits of a sector number.
\<close>

theorem get_sector_nbr_mapping:
  assumes lt: "offset < total_size (state f)"
  shows "get_sector_nbr f offset = first_sector_nbr f + offset div SECTOR_SIZE \<and>
         get_sector_nbr f (total_size (state f))
           = first_sector_nbr f + total_size (state f) div SECTOR_SIZE + 1 \<and>
         get_sector_nbr f (total_size (state f)) \<noteq> get_sector_nbr f offset \<and>
         (unat (first_sector_nbr f) + unat (total_size (state f)) div 512 + 1 < 2 ^ 32
            \<longrightarrow> get_sector_nbr f offset < get_sector_nbr f (total_size (state f)))"
proof -
  let ?T = "total_size (state f)"
  let ?F = "first_sector_nbr f"
  from lt have nle: "\<not> ?T \<le> offset" by simp
  have data_lba: "get_sector_nbr f offset = ?F + offset div 512"
    using nle by (simp add: get_sector_nbr_def FF_MAX_SS_def Let_def)
  have past_end: "get_sector_nbr f ?T = ?F + (?T div 512 + 1)"
    by (simp add: get_sector_nbr_def FF_MAX_SS_def Let_def)
  have le: "unat offset div 512 \<le> unat ?T div 512"
    using lt by (simp add: word_less_nat_alt div_le_mono)
  have differ: "get_sector_nbr f ?T \<noteq> get_sector_nbr f offset"
  proof
    assume "get_sector_nbr f ?T = get_sector_nbr f offset"
    then have "?T div 512 + 1 = offset div 512"
      using data_lba past_end by simp
    then have "unat ?T div 512 + 1 = unat offset div 512"
      using unat_div512[of offset] div512_succ_no_wrap[of ?T] by simp
    with le show False by simp
  qed
  have greater: "get_sector_nbr f offset < get_sector_nbr f ?T"
    if nw: "unat ?F + unat ?T div 512 + 1 < 2 ^ 32"
  proof -
    have a: "unat (?F + offset div 512) = unat ?F + unat offset div 512"
      using nw le by (simp add: unat_word_ariths unat_div512)
    have b: "unat (?F + (?T div 512 + 1)) = unat ?F + (unat ?T div 512 + 1)"
      using nw by (simp add: unat_word_ariths(1)[of ?F] div512_succ_no_wrap)
    show ?thesis using a b le
      by (simp add: data_lba past_end word_less_nat_alt)
  qed
  show ?thesis
    using data_lba past_end differ greater by (simp add: SECTOR_SIZE_def)
qed

theorem get_sector_nbr_mapping_witness:
  "(1000 :: 32 word) < total_size (state (PartialFile_new 4 (\<lambda>i. []) 100
        \<lparr>valid_head = None, valid_tail = None, total_size = 2048\<rparr>
        \<lparr>lseek_results = [], submit_results = [], sem_events = [], submitted = []\<rparr>)) \<and>
   get_sector_nbr (PartialFile_new 4 (\<lambda>i. []) 100
        \<lparr>valid_head = None, valid_tail = None, total_size = 2048\<rparr>
        \<lparr>lseek_results = [], submit_results = [], sem_events = [], submitted = []\<rparr>) 1000 = 101 \<and>
   get_sector_nbr (PartialFile_new 4 (\<lambda>i. []) 100
        \<lparr>valid_head = None, valid_tail = None, total_size = 2048\<rparr>
        \<lparr>lseek_results = [], submit_results = [], sem_events = [], submitted = []\<rparr>) 2048 = 105 \<and>
   get_sector_nbr (PartialFile_new 4 (\<lambda>i. []) 100
        \<lparr>valid_head = None, valid_tail = None, total_size = 2048\<rparr>
        \<lparr>lseek_results = [], submit_results = [], sem_events = [], submitted = []\<rparr>) 1000
     < get_sector_nbr (PartialFile_new 4 (\<lambda>i. []) 100
        \<lparr>valid_head = None, valid_tail = None, total_size = 2048\<rparr>
        \<lparr>lseek_results = [], submit_results = [], sem_events = [], submitted = []\<rparr>) 2048"
  using get_sector_nbr_mapping [of 1000 "PartialFile_new 4 (\<lambda>i. []) 100
        \<lparr>valid_head = None, valid_tail = None, total_size = 2048\<rparr>
        \<lparr>lseek_results = [], submit_results = [], sem_events = [], submitted = []\<rparr>"]
  by (simp add: PartialFile_new_def SECTOR_SIZE_def)

subsection \<open>Head and tail meet\<close>

text \<open>
  C9. When head and tail are both present, the head starts at 0 (as it always does) and
  reaches the start of the tail, then after the next \<open>extend_valid_part\<close> both are the same
  range, from 0: up to \<open>total_size\<close> when the head with the new part merged in reaches
  \<open>total_size\<close>, and otherwise up to the larger of the two ends, which is the end of the
  tail unless the head reaches beyond it.
\<close>

theorem head_tail_unify:
  assumes hd: "valid_head (state f) = Some h" and tl: "valid_tail (state f) = Some t"
    and h0: "start h = 0" and touch: "start t \<le> end' h"
  shows "\<exists>e. valid_head (state (extend_valid_part p f)) = Some \<lparr>start = 0, end' = e\<rparr> \<and>
             valid_tail (state (extend_valid_part p f)) = Some \<lparr>start = 0, end' = e\<rparr> \<and>
             e = (if end' (merge h p) = total_size (state f) then total_size (state f)
                  else max (end' (merge h p)) (end' (merge t p))) \<and>
             end' h \<le> e"
proof -
  let ?h1 = "merge h p" and ?t1 = "merge t p" and ?T = "total_size (state f)"
  have s1: "start ?h1 = 0" using h0 by (rule merge_start0)
  have e1: "end' h \<le> end' ?h1" by (rule merge_end)
  have "start ?t1 \<le> start t" by (rule merge_start)
  with touch e1 have t1h1: "start ?t1 \<le> end' ?h1" by simp
  show ?thesis
  proof (cases "end' ?h1 = ?T")
    case True
    have self: "merge ?h1 ?h1 = ?h1"
      using s1 by (simp add: merge_def)
    have "?h1 = \<lparr>start = 0, end' = ?T\<rparr>"
      using s1 True by simp
    with True hd tl e1 self show ?thesis
      by (simp add: extend_valid_part_def Let_def)
  next
    case False
    let ?m = "\<lparr>start = 0, end' = max (end' ?h1) (end' ?t1)\<rparr>"
    have h3: "merge ?h1 ?t1 = ?m"
      using merge_touch[of ?t1 ?h1] t1h1 s1 by simp
    have "merge ?t1 ?m = ?m"
      using merge_touch[of ?m ?t1] t1h1 by (simp add: max.coboundedI1)
    with False hd tl e1 h3 show ?thesis
      by (simp add: extend_valid_part_def Let_def max.coboundedI1)
  qed
qed

theorem head_tail_unify_witness:
  "valid_head (state ((scenario_file scenario_world)\<lparr>state :=
       \<lparr>valid_head = Some \<lparr>start = 0, end' = 512\<rparr>,
        valid_tail = Some \<lparr>start = 512, end' = 2048\<rparr>, total_size = 2048\<rparr>\<rparr>))
     = Some \<lparr>start = 0, end' = 512\<rparr> \<and>
   valid_head (state (extend_valid_part \<lparr>start = 1024, end' = 1536\<rparr>
     ((scenario_file scenario_world)\<lparr>state :=
       \<lparr>valid_head = Some \<lparr>start = 0, end' = 512\<rparr>,
        valid_tail = Some \<lparr>start = 512, end' = 2048\<rparr>, total_size = 2048\<rparr>\<rparr>)))
     = Some \<lparr>start = 0, end' = 2048\<rparr> \<and>
   valid_tail (state (extend_valid_part \<lparr>start = 1024, end' = 1536\<rparr>
     ((scenario_file scenario_world)\<lparr>state :=
       \<lparr>valid_head = Some \<lparr>start = 0, end' = 512\<rparr>,
        valid_tail = Some \<lparr>start = 512, end' = 2048\<rparr>, total_size = 2048\<rparr>\<rparr>)))
     = Some \<lparr>start = 0, end' = 2048\<rparr>"
  using head_tail_unify [of "(scenario_file scenario_world)\<lparr>state :=
       \<lparr>valid_head = Some \<lparr>start = 0, end' = 512\<rparr>,
        valid_tail = Some \<lparr>start = 512, end' = 2048\<rparr>, total_size = 2048\<rparr>\<rparr>"
      "\<lparr>start = 0, end' = 512\<rparr>" "\<lparr>start = 512, end' = 2048\<rparr>"
      "\<lparr>start = 1024, end' = 1536\<rparr>"]
  by (simp add: merge_def)

subsection \<open>Queries on the valid ranges\<close>

text \<open>
  C10. When \<open>bytes\<close> is greater than \<open>total_size\<close>, the unsigned subtraction
  \<open>total_size - bytes\<close> wraps around to a value above \<open>total_size\<close>, so
  \<open>has_valid_tail bytes\<close> is true for every tail range that ends at \<open>total_size\<close>,
  wherever the range starts (a range starts no later than it ends): the query reports a
  valid tail longer than the whole file.
\<close>

theorem has_valid_tail_wraps:
  assumes "valid_tail (state f) = Some t"
    and "end' t = total_size (state f)"
    and "start t \<le> end' t"
    and "total_size (state f) < bytes"
  shows "has_valid_tail f bytes \<and> total_size (state f) < total_size (state f) - bytes"
  using assms sub_wrap_gt[of "total_size (state f)" bytes]
  by (auto simp: has_valid_tail_def)

theorem has_valid_tail_wraps_witness:
  "has_valid_tail (PartialFile_new 4 (\<lambda>i. []) 100
        \<lparr>valid_head = None, valid_tail = Some \<lparr>start = 1536, end' = 2048\<rparr>, total_size = 2048\<rparr>
        \<lparr>lseek_results = [], submit_results = [], sem_events = [], submitted = []\<rparr>) 3000"
  using has_valid_tail_wraps [of "PartialFile_new 4 (\<lambda>i. []) 100
        \<lparr>valid_head = None, valid_tail = Some \<lparr>start = 1536, end' = 2048\<rparr>, total_size = 2048\<rparr>
        \<lparr>lseek_results = [], submit_results = [], sem_events = [], submitted = []\<rparr>"
        "\<lparr>start = 1536, end' = 2048\<rparr>" 3000]
  by (simp add: PartialFile_new_def)

end
